theory Spec2Isabelle
  imports Complex_Main "HOL-Library.Word"
begin

section \<open>JavaScript values\<close>

text \<open>
  A JavaScript string is a sequence of UTF-16 code units, and \<open>length\<close> counts code
  units. The string literals of the source are ASCII; \<open>lit\<close> embeds them.
\<close>

type_synonym jsstring = "16 word list"

definition lit :: "string \<Rightarrow> jsstring" where
  "lit s = map (\<lambda>c. word_of_nat (of_char c)) s"

text \<open>
  A document (what \<open>JSON.parse\<close> can return, and what a tool call carries as
  arguments). Numbers are the rationals: every finite double is one, and the source only
  compares numbers and tests them for integrality. An object is its list of entries;
  a property that is absent reads as \<open>undefined\<close>, which is \<open>None\<close> of
  \<open>json option\<close>.
\<close>

datatype json =
    JNull
  | JBool bool
  | JNum rat
  | JStr jsstring
  | JArr "json list"
  | JObj "(jsstring \<times> json) list"

text \<open>Reading a property \<open>v.k\<close> of a value other than \<open>null\<close>; the keys the
  source reads are not built-in properties of strings or arrays.\<close>

definition get_prop :: "json \<Rightarrow> jsstring \<Rightarrow> json option" where
  "get_prop v k = (case v of JObj kvs \<Rightarrow> map_of kvs k | _ \<Rightarrow> None)"

text \<open>Truthiness, as \<open>!x\<close> and \<open>x ? a : b\<close> and \<open>x && y\<close> test it.\<close>

fun truthy :: "json option \<Rightarrow> bool" where
  "truthy None = False"
| "truthy (Some JNull) = False"
| "truthy (Some (JBool b)) = b"
| "truthy (Some (JNum n)) = (n \<noteq> 0)"
| "truthy (Some (JStr s)) = (s \<noteq> [])"
| "truthy (Some (JArr xs)) = True"
| "truthy (Some (JObj kvs)) = True"

text \<open>
  \<open>String(x)\<close> and the conversion a template literal applies. \<open>Number::toString\<close>
  of the runtime is the parameter \<open>ns\<close>.
\<close>

fun join_comma :: "jsstring list \<Rightarrow> jsstring" where
  "join_comma [] = []"
| "join_comma [s] = s"
| "join_comma (s # t # ss) = s @ lit '','' @ join_comma (t # ss)"

fun String_json :: "(rat \<Rightarrow> jsstring) \<Rightarrow> json \<Rightarrow> jsstring" where
  "String_json ns JNull = lit ''null''"
| "String_json ns (JBool b) = (if b then lit ''true'' else lit ''false'')"
| "String_json ns (JNum n) = ns n"
| "String_json ns (JStr s) = s"
| "String_json ns (JArr xs) =
     join_comma (map (\<lambda>x. if x = JNull then [] else String_json ns x) xs)"
| "String_json ns (JObj kvs) = lit ''[object Object]''"

definition String_js :: "(rat \<Rightarrow> jsstring) \<Rightarrow> json option \<Rightarrow> jsstring" where
  "String_js ns v = (case v of None \<Rightarrow> lit ''undefined'' | Some x \<Rightarrow> String_json ns x)"

section \<open>The schema combinators\<close>

text \<open>
  A schema is modelled by its \<open>safeParse\<close>: \<open>None\<close> when the value has issues,
  otherwise the parsed data. A schema for a property of an object also sees a missing
  property.
\<close>

type_synonym zod = "json \<Rightarrow> json option"
type_synonym zfield = "json option \<Rightarrow> json option option"

definition z_string :: "(jsstring \<Rightarrow> bool) \<Rightarrow> zod" where
  "z_string chk v = (case v of JStr s \<Rightarrow> if chk s then Some v else None | _ \<Rightarrow> None)"

definition z_number :: "(rat \<Rightarrow> bool) \<Rightarrow> zod" where
  "z_number chk v = (case v of JNum n \<Rightarrow> if chk n then Some v else None | _ \<Rightarrow> None)"

definition z_boolean :: zod where
  "z_boolean v = (case v of JBool b \<Rightarrow> Some v | _ \<Rightarrow> None)"

definition z_enum :: "string list \<Rightarrow> zod" where
  "z_enum opts v = (case v of JStr s \<Rightarrow> if s \<in> set (map lit opts) then Some v else None
                    | _ \<Rightarrow> None)"

definition is_int :: "rat \<Rightarrow> bool" where
  "is_int n = (of_int \<lfloor>n\<rfloor> = n)"

definition z_array :: "zod \<Rightarrow> nat \<Rightarrow> zod" where
  "z_array elem n v =
     (case v of
        JArr xs \<Rightarrow> (case those (map elem xs) of
                      None \<Rightarrow> None
                    | Some ys \<Rightarrow> if n \<le> length xs then Some (JArr ys) else None)
      | _ \<Rightarrow> None)"

definition z_tuple :: "zod list \<Rightarrow> zod" where
  "z_tuple items v =
     (case v of
        JArr xs \<Rightarrow> if length xs = length items
                   then map_option JArr (those (map (\<lambda>(s, x). s x) (zip items xs)))
                   else None
      | _ \<Rightarrow> None)"

definition required :: "zod \<Rightarrow> zfield" where
  "required s v = (case v of None \<Rightarrow> None | Some x \<Rightarrow> map_option Some (s x))"

definition optional :: "zod \<Rightarrow> zfield" where
  "optional s v = (case v of None \<Rightarrow> Some None | Some x \<Rightarrow> map_option Some (s x))"

definition default_to :: "json \<Rightarrow> zfield \<Rightarrow> zfield" where
  "default_to d f v = (case v of None \<Rightarrow> f (Some d) | Some x \<Rightarrow> f v)"

text \<open>An object schema parses the properties of its shape in order and strips every
  other key; a property whose parsed value is \<open>undefined\<close> is left out.\<close>

fun parse_shape ::
  "(jsstring \<times> zfield) list \<Rightarrow> (jsstring \<times> json) list \<Rightarrow> (jsstring \<times> json) list option" where
  "parse_shape [] kvs = Some []"
| "parse_shape ((k, f) # shape) kvs =
     (case f (map_of kvs k) of
        None \<Rightarrow> None
      | Some d \<Rightarrow>
          (case parse_shape shape kvs of
             None \<Rightarrow> None
           | Some out \<Rightarrow> Some (case d of None \<Rightarrow> out | Some x \<Rightarrow> (k, x) # out)))"

definition z_object :: "(string \<times> zfield) list \<Rightarrow> zod" where
  "z_object shape v =
     (case v of
        JObj kvs \<Rightarrow> map_option JObj (parse_shape (map (\<lambda>(k, f). (lit k, f)) shape) kvs)
      | _ \<Rightarrow> None)"

definition refine :: "(json \<Rightarrow> bool) \<Rightarrow> zod \<Rightarrow> zod" where
  "refine p s v = (case s v of None \<Rightarrow> None | Some d \<Rightarrow> if p d then Some d else None)"

section \<open>The tool contracts\<close>

definition z_union :: "zod \<Rightarrow> zod \<Rightarrow> zod" where
  "z_union a b v = (case a v of Some d \<Rightarrow> Some d | None \<Rightarrow> b v)"

definition startsWith :: "jsstring \<Rightarrow> jsstring \<Rightarrow> bool" where
  "startsWith p s = (take (length p) s = p)"

text \<open>The pattern of \<open>AbsolutePath\<close> is anchored at the start and ends in \<open>.*\<close>,
  which also matches nothing: it tests for one of two prefixes.\<close>

definition AbsolutePath :: zod where
  "AbsolutePath =
     z_string (\<lambda>s. startsWith (lit ''/project/workspace/'') s
                  \<or> startsWith (lit ''/home/scrapybara/'') s)"

definition ComputerAction :: zod where
  "ComputerAction =
     z_enum [''key'', ''hold_key'', ''type'', ''cursor_position'', ''mouse_move'',
             ''left_mouse_down'', ''left_mouse_up'', ''left_click'', ''left_click_drag'',
             ''right_click'', ''middle_click'', ''double_click'', ''triple_click'',
             ''scroll'', ''wait'', ''screenshot'']"

definition ScrollDirection :: zod where
  "ScrollDirection = z_enum [''up'', ''down'', ''left'', ''right'']"

definition TaskStatus :: zod where
  "TaskStatus = z_enum [''pending'', ''in_progress'', ''completed'', ''cancelled'']"

text \<open>Screen resolution constraints (1024x768).\<close>

definition Coordinate :: zod where
  "Coordinate =
     z_tuple [z_number (\<lambda>n. is_int n \<and> 0 \<le> n \<and> n \<le> 1024),
              z_number (\<lambda>n. is_int n \<and> 0 \<le> n \<and> n \<le> 768)]"

definition InputQuestion :: zod where
  "InputQuestion =
     z_object
       [(''type'', required (z_enum [''text'', ''number'', ''date''])),
        (''question'', required (z_string (\<lambda>s. 1 \<le> length s))),
        (''placeholder'', optional (z_union (z_string (\<lambda>s. True)) (z_number (\<lambda>n. True)))),
        (''suggestions'', optional (z_array (z_string (\<lambda>s. True)) 0))]"

definition SelectOption :: zod where
  "SelectOption =
     z_object
       [(''emoji'', required (z_string (\<lambda>s. 1 \<le> length s \<and> length s \<le> 4))),
        (''title'', required (z_string (\<lambda>s. 1 \<le> length s))),
        (''prompt'', required (z_string (\<lambda>s. 1 \<le> length s)))]"

definition Task :: zod where
  "Task =
     z_object
       [(''id'', required (z_string (\<lambda>s. 1 \<le> length s))),
        (''title'', required (z_string (\<lambda>s. 1 \<le> length s))),
        (''status'', required TaskStatus)]"

text \<open>What \<open>[...].includes(data.action)\<close> and \<open>data.action === '...'\<close> test.\<close>

definition action_in :: "json \<Rightarrow> string list \<Rightarrow> bool" where
  "action_in data names = (get_prop data (lit ''action'') \<in> set (map (\<lambda>a. Some (JStr (lit a))) names))"

definition computer_requirements :: "json \<Rightarrow> bool" where
  "computer_requirements data =
     (if action_in data [''mouse_move'', ''left_click'', ''right_click'', ''middle_click'',
                         ''double_click'', ''triple_click'']
         \<and> \<not> truthy (get_prop data (lit ''coordinate''))
      then False
      else if action_in data [''left_click_drag'']
         \<and> (\<not> truthy (get_prop data (lit ''coordinate''))
            \<or> \<not> truthy (get_prop data (lit ''start_coordinate'')))
      then False
      else if action_in data [''type'', ''key''] \<and> \<not> truthy (get_prop data (lit ''text''))
      then False
      else if action_in data [''hold_key'']
         \<and> (\<not> truthy (get_prop data (lit ''text'')) \<or> get_prop data (lit ''duration'') = None)
      then False
      else if action_in data [''wait''] \<and> get_prop data (lit ''duration'') = None
      then False
      else if action_in data [''scroll'']
         \<and> (\<not> truthy (get_prop data (lit ''scroll_direction''))
            \<or> get_prop data (lit ''scroll_amount'') = None)
      then False
      else True)"

definition computer_parameters :: zod where
  "computer_parameters =
     refine computer_requirements
       (z_object
          [(''action'', required ComputerAction),
           (''coordinate'', optional Coordinate),
           (''text'', optional (z_string (\<lambda>s. True))),
           (''duration'', optional (z_number (\<lambda>n. 0 < n))),
           (''scroll_direction'', optional ScrollDirection),
           (''scroll_amount'', optional (z_number (\<lambda>n. is_int n \<and> 0 < n))),
           (''start_coordinate'', optional Coordinate)])"

definition message_update_parameters :: zod where
  "message_update_parameters =
     z_object
       [(''message'', required (z_string (\<lambda>s. 1 \<le> length s))),
        (''status'', required (z_string (\<lambda>s. 1 \<le> length s))),
        (''status_emoji'', required (z_string (\<lambda>s. 1 \<le> length s \<and> length s \<le> 4)))]"

definition message_ask_parameters :: zod where
  "message_ask_parameters =
     refine (\<lambda>data. truthy (get_prop data (lit ''follow_ups_input''))
                   \<or> truthy (get_prop data (lit ''follow_ups_select'')))
       (refine (\<lambda>data. \<not> (truthy (get_prop data (lit ''follow_ups_input''))
                         \<and> truthy (get_prop data (lit ''follow_ups_select''))))
          (z_object
             [(''message'', required (z_string (\<lambda>s. 1 \<le> length s))),
              (''attachment'', optional AbsolutePath),
              (''follow_ups_input'', optional (z_array InputQuestion 2)),
              (''follow_ups_select'', optional (z_array SelectOption 2))]))"

text \<open>\<open>tasks.filter((t) => t.status === 'in_progress').length\<close>.\<close>

definition in_progress_count :: "json list \<Rightarrow> nat" where
  "in_progress_count ts =
     length (filter (\<lambda>t. get_prop t (lit ''status'') = Some (JStr (lit ''in_progress''))) ts)"

text \<open>The refinement of the todo contract; it runs on parsed data, where \<open>tasks\<close> is
  an array.\<close>

definition one_in_progress :: "json \<Rightarrow> bool" where
  "one_in_progress data =
     (case get_prop data (lit ''tasks'') of
        Some (JArr ts) \<Rightarrow> in_progress_count ts \<le> 1
      | _ \<Rightarrow> False)"

definition todo_parameters :: zod where
  "todo_parameters =
     refine one_in_progress
       (z_object
          [(''tasks'', required (z_array Task 1)),
           (''request_user_approval'', default_to (JBool False) (optional z_boolean))])"

text \<open>
  The registry \<open>ScoutTools\<close>, in the order of the source. The contracts of the tools
  outside the section of the user interface tools are the parameter \<open>rest\<close>; the
  descriptions are left out.
\<close>

definition ScoutTools :: "(string \<Rightarrow> zod) \<Rightarrow> (string \<times> zod) list" where
  "ScoutTools rest =
     [(''ls'', rest ''ls''), (''read'', rest ''read''), (''glob'', rest ''glob''),
      (''grep'', rest ''grep''), (''edit'', rest ''edit''), (''write'', rest ''write''),
      (''image_generate'', rest ''image_generate''), (''image_edit'', rest ''image_edit''),
      (''image_search'', rest ''image_search''), (''web_search'', rest ''web_search''),
      (''browser_navigate'', rest ''browser_navigate''),
      (''web_download'', rest ''web_download''), (''bash_run'', rest ''bash_run''),
      (''bash_command_check'', rest ''bash_command_check''),
      (''code_template'', rest ''code_template''),
      (''download_project_file'', rest ''download_project_file''),
      (''github_pr'', rest ''github_pr''), (''socials_search'', rest ''socials_search''),
      (''computer'', computer_parameters),
      (''message_update'', message_update_parameters),
      (''message_ask'', message_ask_parameters),
      (''todo'', todo_parameters),
      (''lsp'', rest ''lsp''), (''read_agent'', rest ''read_agent''),
      (''handoff'', rest ''handoff''), (''github_command'', rest ''github_command'')]"

section \<open>Tools\<close>

datatype exn = ToolInputParsingException | TypeError | Error jsstring

text \<open>
  What a call of a tool returns is used by the executor through \<open>JSON.parse\<close> only.
  A string is either the text of a document, which \<open>JSON.parse\<close> decodes, or some
  other text, on which \<open>JSON.parse\<close> throws. The library may also return a message
  object in place of the string (see \<open>invoke\<close>); it is given by its
  \<open>tool_call_id\<close>, and \<open>JSON.parse\<close> throws on it.
\<close>

datatype tool_output = Json_text json | Other_text jsstring | Tool_message json

record DynamicStructuredTool =
  tool_name :: jsstring
  schema :: zod
  func :: "json \<Rightarrow> exn + tool_output"

text \<open>
  \<open>tool.invoke(input)\<close> is code of the library class, not of the repository. The
  library first asks whether the input is a tool call: an object whose \<open>type\<close> is
  \<open>tool_call\<close>.
\<close>

definition is_tool_call :: "json \<Rightarrow> bool" where
  "is_tool_call x = (get_prop x (lit ''type'') = Some (JStr (lit ''tool_call'')))"

text \<open>
  The id under which the library reports the result: the \<open>id\<close> of the argument when
  the argument is a tool call, and otherwise (or when that id is falsy) the \<open>id\<close> of
  the tool call that \<open>invoke\<close> unwrapped, when it is a string.
\<close>

definition tool_call_id :: "json option \<Rightarrow> json option \<Rightarrow> json option" where
  "tool_call_id arg toolCall =
     (let own = (case arg of
                   Some a \<Rightarrow> if is_tool_call a then get_prop a (lit ''id'') else None
                 | None \<Rightarrow> None)
      in if truthy own then own
         else (case toolCall of
                 Some c \<Rightarrow> (case get_prop c (lit ''id'') of
                              Some (JStr s) \<Rightarrow> Some (JStr s)
                            | _ \<Rightarrow> None)
               | None \<Rightarrow> None))"

text \<open>
  \<open>tool.call(arg, config)\<close>: what is validated is \<open>arg.args\<close> when \<open>arg\<close> is a
  tool call, and \<open>arg\<close> otherwise. When the schema does not match (the contracts of
  the registry are object schemas, which do not match \<open>undefined\<close>) the call rejects
  with a parsing exception, and \<open>func\<close> is not run; otherwise \<open>func\<close> runs on the
  parsed data. What \<open>func\<close> throws, the call throws; what it returns, the call
  returns, wrapped in a message object when there is a tool call id that is truthy.
\<close>

definition call_tool ::
  "DynamicStructuredTool \<Rightarrow> json option \<Rightarrow> json option \<Rightarrow> exn + tool_output" where
  "call_tool t arg toolCall =
     (let inputForValidation =
            (case arg of
               Some a \<Rightarrow> if is_tool_call a then get_prop a (lit ''args'') else Some a
             | None \<Rightarrow> None)
      in case inputForValidation of
           None \<Rightarrow> Inl ToolInputParsingException
         | Some v \<Rightarrow>
             (case schema t v of
                None \<Rightarrow> Inl ToolInputParsingException
              | Some parsed \<Rightarrow>
                  (case func t parsed of
                     Inl e \<Rightarrow> Inl e
                   | Inr content \<Rightarrow>
                       (case tool_call_id arg toolCall of
                          None \<Rightarrow> Inr content
                        | Some i \<Rightarrow> if truthy (Some i) then Inr (Tool_message i)
                                    else Inr content))))"

text \<open>
  \<open>tool.invoke(input)\<close>: a tool call is unwrapped, and its \<open>args\<close> are what
  \<open>call\<close> receives; any other input goes to \<open>call\<close> as it is.
\<close>

definition invoke :: "DynamicStructuredTool \<Rightarrow> json \<Rightarrow> exn + tool_output" where
  "invoke t inp =
     (if is_tool_call inp then call_tool t (get_prop inp (lit ''args'')) (Some inp)
      else call_tool t (Some inp) None)"

text \<open>The environment: \<open>executeTool(tool, input)\<close> resolves to a document or rejects
  with an error, given by its message.\<close>

type_synonym EnvironmentAPI = "jsstring \<Rightarrow> json \<Rightarrow> jsstring + json"

text \<open>The \<open>func\<close> that \<open>createAisdk5Tools\<close> gives every tool.\<close>

definition aisdk5_func :: "EnvironmentAPI \<Rightarrow> jsstring \<Rightarrow> json \<Rightarrow> exn + tool_output" where
  "aisdk5_func environmentApi toolName inp =
     (case environmentApi toolName inp of
        Inr res \<Rightarrow> Inr (Json_text res)
      | Inl msg \<Rightarrow>
          Inr (Json_text (JObj [(lit ''error'', JStr msg),
                                (lit ''tool'', JStr toolName),
                                (lit ''input'', inp),
                                (lit ''status'', JStr (lit ''FAILURE''))])))"

definition createAisdk5Tools ::
  "(string \<Rightarrow> zod) \<Rightarrow> EnvironmentAPI \<Rightarrow> DynamicStructuredTool list" where
  "createAisdk5Tools rest environmentApi =
     map (\<lambda>(toolName, parameters).
            \<lparr>tool_name = lit toolName, schema = parameters,
             func = aisdk5_func environmentApi (lit toolName)\<rparr>)
         (ScoutTools rest)"

section \<open>The workflow\<close>

datatype ContentPart = Text_part jsstring | Image_url_part jsstring jsstring

datatype MessageContent = Plain jsstring | Parts "ContentPart list"

datatype BaseMessage =
    HumanMessage MessageContent
  | AIMessage MessageContent
  | SystemMessage MessageContent
  | ToolMessage MessageContent

record AgentToolCall =
  name :: jsstring
  args :: "(jsstring \<times> json) list"

record AgentOutcome =
  tool_calls :: "AgentToolCall list option"

record ui_status =
  message :: jsstring
  status :: jsstring
  emoji :: jsstring

record AgentState =
  chat_history :: "BaseMessage list"
  agentOutcome :: "AgentOutcome option"
  latest_screenshot :: "json option"
  current_ui_status :: "ui_status option"
  current_todo_list :: "json option"

text \<open>\<open>Partial<AgentState>\<close>: \<open>None\<close> is a key that is not set.\<close>

record PartialAgentState =
  new_chat_history :: "BaseMessage list option"
  new_agentOutcome :: "AgentOutcome option option"
  new_latest_screenshot :: "json option option"
  new_current_ui_status :: "ui_status option option"
  new_current_todo_list :: "json option option"

definition empty_partial :: PartialAgentState where
  "empty_partial =
     \<lparr>new_chat_history = None, new_agentOutcome = None, new_latest_screenshot = None,
      new_current_ui_status = None, new_current_todo_list = None\<rparr>"

definition runAgent ::
  "(BaseMessage list \<Rightarrow> exn + AgentOutcome) \<Rightarrow> AgentState \<Rightarrow> exn + PartialAgentState" where
  "runAgent agent state =
     (case agent (chat_history state) of
        Inl e \<Rightarrow> Inl e
      | Inr response \<Rightarrow> Inr (empty_partial\<lparr>new_agentOutcome := Some (Some response)\<rparr>))"

datatype route = Continue | End

definition shouldContinue :: "AgentState \<Rightarrow> route" where
  "shouldContinue state =
     (case agentOutcome state of
        None \<Rightarrow> End
      | Some outcome \<Rightarrow>
          (case tool_calls outcome of
             None \<Rightarrow> End
           | Some calls \<Rightarrow> if length calls \<noteq> 0 then Continue else End))"

record ToolOutput =
  toolName :: jsstring
  result :: json
  input :: "(jsstring \<times> json) list"

text \<open>\<open>JSON.parse(raw)\<close>, with the fallback of the \<open>catch\<close>.\<close>

definition parse_raw :: "tool_output \<Rightarrow> json" where
  "parse_raw raw =
     (case raw of
        Json_text v \<Rightarrow> v
      | Other_text s \<Rightarrow> JObj [(lit ''raw'', JStr s)]
      | Tool_message i \<Rightarrow> JObj [(lit ''raw'', JObj [(lit ''tool_call_id'', i)])])"

text \<open>The first loop of \<open>executeTools\<close>; a rejected \<open>tool.invoke\<close> is not caught.\<close>

fun dispatch ::
  "DynamicStructuredTool list \<Rightarrow> AgentToolCall list \<Rightarrow> ToolOutput list \<Rightarrow> exn + ToolOutput list" where
  "dispatch tools [] outputs = Inr outputs"
| "dispatch tools (call # actions) outputs =
     (case find (\<lambda>t. tool_name t = name call) tools of
        None \<Rightarrow> dispatch tools actions outputs
      | Some tool \<Rightarrow>
          (case invoke tool (JObj (args call)) of
             Inl e \<Rightarrow> Inl e
           | Inr raw \<Rightarrow>
               dispatch tools actions
                 (outputs @ [\<lparr>toolName = name call, result = parse_raw raw,
                              input = args call\<rparr>])))"

text \<open>\<open>output.toolName === "computer" && output.result.screenshot\<close>; reading a
  property of \<open>null\<close> throws.\<close>

definition carries_screenshot :: "ToolOutput \<Rightarrow> exn + bool" where
  "carries_screenshot output =
     (if toolName output = lit ''computer''
      then (case result output of
              JNull \<Rightarrow> Inl TypeError
            | r \<Rightarrow> Inr (truthy (get_prop r (lit ''screenshot''))))
      else Inr False)"

definition observation ::
  "(rat \<Rightarrow> jsstring) \<Rightarrow> ToolOutput \<Rightarrow> BaseMessage" where
  "observation ns output =
     HumanMessage (Parts
       [Text_part (lit ''[System Observation] Screenshot after action: ''
                   @ String_js ns (map_of (input output) (lit ''action''))),
        Image_url_part (lit ''data:image/png;base64,''
                        @ String_js ns (get_prop (result output) (lit ''screenshot'')))
                       (lit ''high'')])"

text \<open>The record that a \<open>message_update\<close> output sets as \<open>current_ui_status\<close>.\<close>

definition ui_status_of :: "(rat \<Rightarrow> jsstring) \<Rightarrow> ToolOutput \<Rightarrow> ui_status" where
  "ui_status_of ns output =
     \<lparr>message = String_js ns (map_of (input output) (lit ''message'')),
      status = String_js ns (map_of (input output) (lit ''status'')),
      emoji = String_js ns (map_of (input output) (lit ''status_emoji''))\<rparr>"

text \<open>The second loop of \<open>executeTools\<close>.\<close>

fun fold_outputs ::
  "(rat \<Rightarrow> jsstring) \<Rightarrow> ToolOutput list \<Rightarrow> PartialAgentState \<times> BaseMessage list
     \<Rightarrow> exn + PartialAgentState \<times> BaseMessage list" where
  "fold_outputs ns [] (newState, multimodalMessages) = Inr (newState, multimodalMessages)"
| "fold_outputs ns (output # outputs) (newState, multimodalMessages) =
     (case carries_screenshot output of
        Inl e \<Rightarrow> Inl e
      | Inr True \<Rightarrow>
          fold_outputs ns outputs
            (newState\<lparr>new_latest_screenshot :=
                        Some (get_prop (result output) (lit ''screenshot''))\<rparr>,
             multimodalMessages @ [observation ns output])
      | Inr False \<Rightarrow>
          if toolName output = lit ''message_update''
          then fold_outputs ns outputs
                 (newState\<lparr>new_current_ui_status := Some (Some (ui_status_of ns output))\<rparr>,
                  multimodalMessages)
          else if toolName output = lit ''todo''
          then fold_outputs ns outputs
                 (newState\<lparr>new_current_todo_list :=
                             Some (map_of (input output) (lit ''tasks''))\<rparr>,
                  multimodalMessages)
          else fold_outputs ns outputs (newState, multimodalMessages))"

text \<open>\<open>executeTools\<close> after its first loop: the second loop and the new turns.\<close>

definition fold_deltas ::
  "(rat \<Rightarrow> jsstring) \<Rightarrow> AgentState \<Rightarrow> ToolOutput list \<Rightarrow> exn + PartialAgentState" where
  "fold_deltas ns state outputs =
     (case fold_outputs ns outputs (empty_partial, []) of
        Inl e \<Rightarrow> Inl e
      | Inr (newState, multimodalMessages) \<Rightarrow>
          Inr (if length multimodalMessages \<noteq> 0
               then newState\<lparr>new_chat_history :=
                               Some (chat_history state @ multimodalMessages)\<rparr>
               else newState))"

text \<open>\<open>state.agentOutcome?.tool_calls ?? []\<close>.\<close>

definition actions :: "AgentState \<Rightarrow> AgentToolCall list" where
  "actions state =
     (case agentOutcome state of
        None \<Rightarrow> []
      | Some outcome \<Rightarrow> (case tool_calls outcome of None \<Rightarrow> [] | Some calls \<Rightarrow> calls))"

definition executeTools ::
  "(rat \<Rightarrow> jsstring) \<Rightarrow> DynamicStructuredTool list \<Rightarrow> AgentState \<Rightarrow> exn + PartialAgentState" where
  "executeTools ns tools state =
     (case dispatch tools (actions state) [] of
        Inl e \<Rightarrow> Inl e
      | Inr outputs \<Rightarrow> fold_deltas ns state outputs)"

subsection \<open>The graph\<close>

text \<open>The functions that \<open>createScoutWorkflow\<close> writes for its channels.\<close>

definition chat_history_channel ::
  "BaseMessage list option \<Rightarrow> BaseMessage list option \<Rightarrow> BaseMessage list" where
  "chat_history_channel left right =
     (case left of None \<Rightarrow> [] | Some l \<Rightarrow> l) @ (case right of None \<Rightarrow> [] | Some r \<Rightarrow> r)"

definition agentOutcome_channel ::
  "AgentOutcome option \<Rightarrow> AgentOutcome option \<Rightarrow> AgentOutcome option" where
  "agentOutcome_channel left right = right"

definition latest_screenshot_channel :: "json option \<Rightarrow> json option \<Rightarrow> json option" where
  "latest_screenshot_channel left right = right"

definition current_ui_status_channel ::
  "ui_status option \<Rightarrow> ui_status option \<Rightarrow> ui_status option" where
  "current_ui_status_channel left right = right"

definition current_todo_list_channel :: "json option \<Rightarrow> json option \<Rightarrow> json option" where
  "current_todo_list_channel left right = right"

text \<open>
  How the graph applies what a node returns is code of the library. It builds a
  reducer channel from an object that holds the reducer under a key, and a last-value
  channel from anything else. \<open>createScoutWorkflow\<close> passes the functions above bare
  (under \<open>as any\<close>), so every channel is a last-value channel and the functions are
  never called: a key that is set in the update replaces the value of the state, a key
  that is not set leaves it as it is.
\<close>

definition merge :: "AgentState \<Rightarrow> PartialAgentState \<Rightarrow> AgentState" where
  "merge state update =
     \<lparr>chat_history =
        (case new_chat_history update of
           None \<Rightarrow> chat_history state
         | Some right \<Rightarrow> right),
      agentOutcome =
        (case new_agentOutcome update of
           None \<Rightarrow> agentOutcome state
         | Some right \<Rightarrow> right),
      latest_screenshot =
        (case new_latest_screenshot update of
           None \<Rightarrow> latest_screenshot state
         | Some right \<Rightarrow> right),
      current_ui_status =
        (case new_current_ui_status update of
           None \<Rightarrow> current_ui_status state
         | Some right \<Rightarrow> right),
      current_todo_list =
        (case new_current_todo_list update of
           None \<Rightarrow> current_todo_list state
         | Some right \<Rightarrow> right)\<rparr>"

datatype node = N_START | N_agent | N_tools | N_END

text \<open>The edges: \<open>START\<close> to the agent, the conditional edges of the agent, and the
  tools back to the agent.\<close>

fun next_node :: "node \<Rightarrow> AgentState \<Rightarrow> node" where
  "next_node N_START state = N_agent"
| "next_node N_agent state =
     (case shouldContinue state of Continue \<Rightarrow> N_tools | End \<Rightarrow> N_END)"
| "next_node N_tools state = N_agent"
| "next_node N_END state = N_END"

record workflow =
  agent_of :: "BaseMessage list \<Rightarrow> exn + AgentOutcome"
  tools_of :: "DynamicStructuredTool list"

text \<open>One step of the compiled graph: the node runs, its update is merged, and the
  edge out of the node is taken on the merged state.\<close>

fun step ::
  "(rat \<Rightarrow> jsstring) \<Rightarrow> workflow \<Rightarrow> node \<times> AgentState \<Rightarrow> exn + node \<times> AgentState" where
  "step ns w (N_START, state) = Inr (next_node N_START state, state)"
| "step ns w (N_agent, state) =
     (case runAgent (agent_of w) state of
        Inl e \<Rightarrow> Inl e
      | Inr update \<Rightarrow> Inr (next_node N_agent (merge state update), merge state update))"
| "step ns w (N_tools, state) =
     (case executeTools ns (tools_of w) state of
        Inl e \<Rightarrow> Inl e
      | Inr update \<Rightarrow> Inr (next_node N_tools (merge state update), merge state update))"
| "step ns w (N_END, state) = Inr (N_END, state)"


section \<open>Notions used by the properties\<close>

text \<open>The outputs of a batch that carry a screenshot, report progress, or set the task
  list.\<close>

definition screenshots :: "ToolOutput list \<Rightarrow> ToolOutput list" where
  "screenshots outputs = filter (\<lambda>output. carries_screenshot output = Inr True) outputs"

definition status_updates :: "ToolOutput list \<Rightarrow> ToolOutput list" where
  "status_updates outputs = filter (\<lambda>output. toolName output = lit ''message_update'') outputs"

definition todo_updates :: "ToolOutput list \<Rightarrow> ToolOutput list" where
  "todo_updates outputs = filter (\<lambda>output. toolName output = lit ''todo'') outputs"

text \<open>A task list with at most one entry whose status is \<open>in_progress\<close>.\<close>

definition at_most_one_in_progress :: "json option \<Rightarrow> bool" where
  "at_most_one_in_progress tasks =
     (case tasks of Some (JArr ts) \<Rightarrow> in_progress_count ts \<le> 1 | _ \<Rightarrow> True)"

section \<open>Sample inputs\<close>

text \<open>A stand-in for \<open>Number::toString\<close>, contracts that accept everything for the
  tools outside the user interface section, an environment that answers every call with
  a screenshot (the text of the call, when it has one), and a state with a pending batch of calls.\<close>

definition sample_ns :: "rat \<Rightarrow> jsstring" where
  "sample_ns n = lit ''0''"

definition sample_rest :: "string \<Rightarrow> zod" where
  "sample_rest k v = Some v"

definition sample_env :: EnvironmentAPI where
  "sample_env tool inp =
     Inr (JObj [(lit ''screenshot'',
                 (case get_prop inp (lit ''text'') of
                    Some t \<Rightarrow> t
                  | None \<Rightarrow> JStr (lit ''iVBORw0KGgo'')))])"

definition sample_tools :: "DynamicStructuredTool list" where
  "sample_tools = createAisdk5Tools sample_rest sample_env"

definition sample_state :: "AgentToolCall list \<Rightarrow> AgentState" where
  "sample_state calls =
     \<lparr>chat_history = [HumanMessage (Plain (lit ''hello''))],
      agentOutcome = Some \<lparr>tool_calls = Some calls\<rparr>,
      latest_screenshot = None, current_ui_status = None, current_todo_list = None\<rparr>"

definition sample_task :: "string \<Rightarrow> string \<Rightarrow> json" where
  "sample_task i st =
     JObj [(lit ''id'', JStr (lit i)), (lit ''title'', JStr (lit ''step'')),
           (lit ''status'', JStr (lit st))]"

definition todo_call :: "json list \<Rightarrow> AgentToolCall" where
  "todo_call ts = \<lparr>name = lit ''todo'', args = [(lit ''tasks'', JArr ts)]\<rparr>"

definition type_call :: "string \<Rightarrow> AgentToolCall" where
  "type_call t =
     \<lparr>name = lit ''computer'',
      args = [(lit ''action'', JStr (lit ''type'')), (lit ''text'', JStr (lit t))]\<rparr>"

definition message_update_call :: "string \<Rightarrow> AgentToolCall" where
  "message_update_call m =
     \<lparr>name = lit ''message_update'',
      args = [(lit ''message'', JStr (lit m)), (lit ''status'', JStr (lit ''Working'')),
              (lit ''status_emoji'', JStr (lit ''*''))]\<rparr>"

definition sample_workflow :: workflow where
  "sample_workflow = \<lparr>agent_of = (\<lambda>h. Inr \<lparr>tool_calls = None\<rparr>), tools_of = sample_tools\<rparr>"

section \<open>Properties\<close>

lemma lit_inj: "lit a = lit b \<longleftrightarrow> a = b"
proof -
  have "inj (\<lambda>c::char. (word_of_nat (of_char c) :: 16 word))"
  proof (rule injI)
    fix c d :: char
    assume h: "(word_of_nat (of_char c) :: 16 word) = word_of_nat (of_char d)"
    have lt: "(of_char e :: nat) < 2 ^ 16" for e :: char
    proof -
      have "(of_char e :: nat) mod 256 < 256"
        by (rule mod_less_divisor) simp
      then have "(of_char e :: nat) < 256"
        by (simp only: of_char_mod_256)
      also have "(256 :: nat) < 2 ^ 16" by simp
      finally show ?thesis .
    qed
    note c = lt [of c] and d = lt [of d]
    from h have "take_bit 16 (of_char c :: nat) = take_bit 16 (of_char d :: nat)"
      by (simp add: word_of_nat_eq_iff)
    with c d have "(of_char c :: nat) = of_char d"
      by (simp add: take_bit_nat_eq_self)
    then show "c = d"
      using inj_of_char [where ?'a = nat] by (simp add: inj_def)
  qed
  then show ?thesis
    unfolding lit_def by (simp add: inj_map_eq_map)
qed

subsection \<open>Parsing\<close>

lemma lit_Nil_iff: "lit s = [] \<longleftrightarrow> s = []"
  by (simp add: lit_def)

lemma length_lit: "length (lit s) = length s"
  by (simp add: lit_def)

lemma those_map_None_iff: "those (map f xs) = None \<longleftrightarrow> (\<exists>x\<in>set xs. f x = None)"
  by (induction xs) (auto split: option.splits)

lemma those_map_Some: "those (map f xs) = Some ys \<Longrightarrow> map f xs = map Some ys"
  by (induction xs arbitrary: ys) (auto split: option.splits)

lemma parse_shape_keys:
  "parse_shape shape kvs = Some out \<Longrightarrow> fst ` set out \<subseteq> fst ` set shape"
proof (induction shape arbitrary: out)
  case Nil
  then show ?case by simp
next
  case (Cons p shape)
  obtain k f where p: "p = (k, f)" by (cases p)
  from Cons.prems p obtain d out' where
    d: "f (map_of kvs k) = Some d" and out': "parse_shape shape kvs = Some out'"
    and out: "out = (case d of None \<Rightarrow> out' | Some x \<Rightarrow> (k, x) # out')"
    by (auto split: option.splits)
  from Cons.IH [OF out'] have "fst ` set out' \<subseteq> fst ` set shape" .
  with out p show ?case by (cases d) auto
qed

lemma parse_shape_get:
  "parse_shape shape kvs = Some out \<Longrightarrow> distinct (map fst shape) \<Longrightarrow> (k, f) \<in> set shape
   \<Longrightarrow> f (map_of kvs k) = Some (map_of out k)"
proof (induction shape arbitrary: out)
  case Nil
  then show ?case by simp
next
  case (Cons p shape)
  obtain k0 f0 where p: "p = (k0, f0)" by (cases p)
  from Cons.prems(1) p obtain d out' where
    d: "f0 (map_of kvs k0) = Some d" and out': "parse_shape shape kvs = Some out'"
    and out: "out = (case d of None \<Rightarrow> out' | Some x \<Rightarrow> (k0, x) # out')"
    by (auto split: option.splits)
  from Cons.prems(2) p have dist: "distinct (map fst shape)" and k0: "k0 \<notin> fst ` set shape"
    by simp_all
  show ?case
  proof (cases "(k, f) = (k0, f0)")
    case True
    from parse_shape_keys [OF out'] k0 have "k0 \<notin> fst ` set out'" by blast
    then have "map_of out' k0 = None" by (simp add: map_of_eq_None_iff)
    with True d out show ?thesis by (cases d) simp_all
  next
    case False
    with Cons.prems(3) p have mem: "(k, f) \<in> set shape" by auto
    then have "k \<in> fst ` set shape" by force
    with k0 have "k \<noteq> k0" by blast
    moreover from Cons.IH [OF out' dist mem] have "f (map_of kvs k) = Some (map_of out' k)" .
    ultimately show ?thesis using out by (cases d) simp_all
  qed
qed

lemma parse_shape_None_iff:
  "parse_shape shape kvs = None \<longleftrightarrow> (\<exists>(k, f)\<in>set shape. f (map_of kvs k) = None)"
  by (induction shape) (auto split: option.splits)

lemma z_object_Some:
  "z_object shape v = Some d \<Longrightarrow>
     \<exists>kvs out. v = JObj kvs \<and> d = JObj out
       \<and> parse_shape (map (\<lambda>(k, f). (lit k, f)) shape) kvs = Some out"
  by (auto simp: z_object_def split: json.splits)

lemma refine_Some: "refine p s v = Some d \<longleftrightarrow> s v = Some d \<and> p d"
  by (auto simp: refine_def split: option.splits)

lemma z_string_plain: "z_string chk x = Some y \<Longrightarrow> y = x \<and> (\<exists>s. x = JStr s \<and> chk s)"
  by (auto simp: z_string_def split: json.splits if_splits)

lemma z_number_plain: "z_number chk x = Some y \<Longrightarrow> y = x \<and> (\<exists>n. x = JNum n \<and> chk n)"
  by (auto simp: z_number_def split: json.splits if_splits)

lemma z_enum_plain: "z_enum opts x = Some y \<Longrightarrow> y = x \<and> (\<exists>s. x = JStr s \<and> s \<in> set (map lit opts))"
  by (auto simp: z_enum_def split: json.splits if_splits)

lemma z_boolean_plain: "z_boolean x = Some y \<Longrightarrow> y = x"
  by (auto simp: z_boolean_def split: json.splits)

lemma Coordinate_plain: "Coordinate x = Some y \<Longrightarrow> y = x \<and> (\<exists>xs. x = JArr xs)"
  by (auto simp: Coordinate_def z_tuple_def z_number_def length_Suc_conv
           split: json.splits if_splits option.splits)

lemma optional_plain:
  "optional s u = Some w \<Longrightarrow> (\<And>x y. s x = Some y \<Longrightarrow> y = x) \<Longrightarrow> w = u"
  by (auto simp: optional_def split: option.splits)

lemma required_plain:
  "required s u = Some w \<Longrightarrow> (\<And>x y. s x = Some y \<Longrightarrow> y = x) \<Longrightarrow> w = u \<and> u \<noteq> None"
  by (auto simp: required_def split: option.splits)

subsection \<open>Coordinates\<close>

text \<open>
  C3 (as amended). A pair of numbers \<open>(x, y)\<close> passes \<open>Coordinate\<close> if and only if
  both are integers, \<open>0 \<le> x \<le> 1024\<close> and \<open>0 \<le> y \<le> 768\<close>: each component is
  \<open>z.number().int().min(0).max(...)\<close>.
\<close>

theorem Coordinate_accepts_iff:
  "Coordinate (JArr [JNum x, JNum y]) \<noteq> None \<longleftrightarrow>
     is_int x \<and> is_int y \<and> 0 \<le> x \<and> x \<le> 1024 \<and> 0 \<le> y \<and> y \<le> 768"
  by (auto simp: Coordinate_def z_tuple_def z_number_def)

text \<open>\<open>(1024, 768)\<close> is accepted and \<open>(1025, 10)\<close> is rejected.\<close>

theorem Coordinate_accepts_iff_witness:
  "Coordinate (JArr [JNum 1024, JNum 768]) \<noteq> None
   \<and> Coordinate (JArr [JNum 1025, JNum 10]) = None"
  using Coordinate_accepts_iff [of 1024 768] Coordinate_accepts_iff [of 1025 10]
  by (simp add: is_int_def)

text \<open>The pair \<open>(1/2, 1/2)\<close> lies within the rectangle and is rejected.\<close>

theorem Coordinate_fraction_counterexample:
  "(0::rat) \<le> 1 / 2 \<and> (1 / 2 :: rat) \<le> 1024 \<and> (1 / 2 :: rat) \<le> 768
   \<and> Coordinate (JArr [JNum (1 / 2), JNum (1 / 2)]) = None"
  unfolding Coordinate_def z_tuple_def z_number_def is_int_def by code_simp

subsection \<open>The computer contract\<close>

lemma computer_shape_distinct:
  "distinct (map fst (map (\<lambda>(k, f). (lit k, f :: zfield))
     [(''action'', a), (''coordinate'', b), (''text'', c), (''duration'', d),
      (''scroll_direction'', e), (''scroll_amount'', g), (''start_coordinate'', h)]))"
  by (simp add: lit_inj)

lemma computer_accepted:
  assumes "computer_parameters v = Some d"
  shows "computer_requirements v"
    and "required ComputerAction (get_prop v (lit ''action'')) \<noteq> None"
    and "optional Coordinate (get_prop v (lit ''coordinate'')) \<noteq> None"
    and "optional (z_string (\<lambda>s. True)) (get_prop v (lit ''text'')) \<noteq> None"
    and "optional (z_number (\<lambda>n. 0 < n)) (get_prop v (lit ''duration'')) \<noteq> None"
    and "optional ScrollDirection (get_prop v (lit ''scroll_direction'')) \<noteq> None"
    and "optional (z_number (\<lambda>n. is_int n \<and> 0 < n)) (get_prop v (lit ''scroll_amount'')) \<noteq> None"
    and "optional Coordinate (get_prop v (lit ''start_coordinate'')) \<noteq> None"
proof -
  let ?shape = "map (\<lambda>(k, f). (lit k, f))
     [(''action'', required ComputerAction),
      (''coordinate'', optional Coordinate),
      (''text'', optional (z_string (\<lambda>s. True))),
      (''duration'', optional (z_number (\<lambda>n. 0 < n))),
      (''scroll_direction'', optional ScrollDirection),
      (''scroll_amount'', optional (z_number (\<lambda>n. is_int n \<and> 0 < n))),
      (''start_coordinate'', optional Coordinate)]"
  from assms obtain kvs out where v: "v = JObj kvs" and d: "d = JObj out"
    and ps: "parse_shape ?shape kvs = Some out" and req: "computer_requirements d"
    unfolding computer_parameters_def refine_Some by (blast dest: z_object_Some)
  note get = parse_shape_get [OF ps computer_shape_distinct]
  have f1: "required ComputerAction (map_of kvs (lit ''action'')) = Some (map_of out (lit ''action''))"
    by (rule get) simp
  have f2: "optional Coordinate (map_of kvs (lit ''coordinate'')) = Some (map_of out (lit ''coordinate''))"
    by (rule get) simp
  have f3: "optional (z_string (\<lambda>s. True)) (map_of kvs (lit ''text'')) = Some (map_of out (lit ''text''))"
    by (rule get) simp
  have f4: "optional (z_number (\<lambda>n. 0 < n)) (map_of kvs (lit ''duration'')) = Some (map_of out (lit ''duration''))"
    by (rule get) simp
  have f5: "optional ScrollDirection (map_of kvs (lit ''scroll_direction'')) = Some (map_of out (lit ''scroll_direction''))"
    by (rule get) simp
  have f6: "optional (z_number (\<lambda>n. is_int n \<and> 0 < n)) (map_of kvs (lit ''scroll_amount'')) = Some (map_of out (lit ''scroll_amount''))"
    by (rule get) simp
  have f7: "optional Coordinate (map_of kvs (lit ''start_coordinate'')) = Some (map_of out (lit ''start_coordinate''))"
    by (rule get) simp
  have e1: "map_of out (lit ''action'') = map_of kvs (lit ''action'')"
    using required_plain [OF f1] z_enum_plain unfolding ComputerAction_def by blast
  have e2: "map_of out (lit ''coordinate'') = map_of kvs (lit ''coordinate'')"
    using optional_plain [OF f2] Coordinate_plain by blast
  have e3: "map_of out (lit ''text'') = map_of kvs (lit ''text'')"
    using optional_plain [OF f3] z_string_plain by blast
  have e4: "map_of out (lit ''duration'') = map_of kvs (lit ''duration'')"
    using optional_plain [OF f4] z_number_plain by blast
  have e5: "map_of out (lit ''scroll_direction'') = map_of kvs (lit ''scroll_direction'')"
    using optional_plain [OF f5] z_enum_plain unfolding ScrollDirection_def by blast
  have e6: "map_of out (lit ''scroll_amount'') = map_of kvs (lit ''scroll_amount'')"
    using optional_plain [OF f6] z_number_plain by blast
  have e7: "map_of out (lit ''start_coordinate'') = map_of kvs (lit ''start_coordinate'')"
    using optional_plain [OF f7] Coordinate_plain by blast
  from req show "computer_requirements v"
    unfolding computer_requirements_def action_in_def d v get_prop_def json.case e1 e2 e3 e4 e5 e6 e7 .
  show "required ComputerAction (get_prop v (lit ''action'')) \<noteq> None"
    using f1 by (simp add: v get_prop_def)
  show "optional Coordinate (get_prop v (lit ''coordinate'')) \<noteq> None"
    using f2 by (simp add: v get_prop_def)
  show "optional (z_string (\<lambda>s. True)) (get_prop v (lit ''text'')) \<noteq> None"
    using f3 by (simp add: v get_prop_def)
  show "optional (z_number (\<lambda>n. 0 < n)) (get_prop v (lit ''duration'')) \<noteq> None"
    using f4 by (simp add: v get_prop_def)
  show "optional ScrollDirection (get_prop v (lit ''scroll_direction'')) \<noteq> None"
    using f5 by (simp add: v get_prop_def)
  show "optional (z_number (\<lambda>n. is_int n \<and> 0 < n)) (get_prop v (lit ''scroll_amount'')) \<noteq> None"
    using f6 by (simp add: v get_prop_def)
  show "optional Coordinate (get_prop v (lit ''start_coordinate'')) \<noteq> None"
    using f7 by (simp add: v get_prop_def)
qed

lemma computer_requirements_rules:
  assumes "computer_requirements v"
  shows "action_in v [''mouse_move'', ''left_click'', ''right_click'', ''middle_click'',
                      ''double_click'', ''triple_click'']
           \<Longrightarrow> truthy (get_prop v (lit ''coordinate''))"
    and "action_in v [''left_click_drag'']
           \<Longrightarrow> truthy (get_prop v (lit ''coordinate''))
               \<and> truthy (get_prop v (lit ''start_coordinate''))"
    and "action_in v [''type'', ''key''] \<Longrightarrow> truthy (get_prop v (lit ''text''))"
    and "action_in v [''hold_key'']
           \<Longrightarrow> truthy (get_prop v (lit ''text'')) \<and> get_prop v (lit ''duration'') \<noteq> None"
    and "action_in v [''wait''] \<Longrightarrow> get_prop v (lit ''duration'') \<noteq> None"
    and "action_in v [''scroll'']
           \<Longrightarrow> truthy (get_prop v (lit ''scroll_direction''))
               \<and> get_prop v (lit ''scroll_amount'') \<noteq> None"
  using assms unfolding computer_requirements_def by (auto split: if_splits)

lemma truthy_present: "truthy u \<Longrightarrow> u \<noteq> None"
  by (cases u) simp_all

lemma optional_string_truthy:
  "optional (z_string chk) u \<noteq> None \<Longrightarrow> truthy u \<Longrightarrow> \<exists>s. u = Some (JStr s) \<and> s \<noteq> []"
  by (cases u) (auto simp: optional_def z_string_def split: json.splits if_splits)

lemma optional_number_present:
  "optional (z_number chk) u \<noteq> None \<Longrightarrow> u \<noteq> None \<Longrightarrow> \<exists>n. u = Some (JNum n) \<and> chk n"
  by (cases u) (auto simp: optional_def z_number_def split: json.splits if_splits)

text \<open>
  C4 (as amended). A call of the computer tool that breaks a rule of its action is
  rejected: the pointer actions \<open>mouse_move\<close>, \<open>left_click\<close>, \<open>right_click\<close>,
  \<open>middle_click\<close>, \<open>double_click\<close> and \<open>triple_click\<close> need a coordinate, the
  drag needs a coordinate and a start coordinate, \<open>wait\<close> and \<open>hold_key\<close> need a
  duration, \<open>scroll\<close> needs a direction and an amount that is not negative, and
  \<open>type\<close>, \<open>key\<close> and \<open>hold_key\<close> need a text that is not empty.
\<close>

theorem computer_rules_enforced:
  "(action_in v [''mouse_move'', ''left_click'', ''right_click'', ''middle_click'',
                 ''double_click'', ''triple_click'']
      \<and> get_prop v (lit ''coordinate'') = None
      \<longrightarrow> computer_parameters v = None)
   \<and> (action_in v [''left_click_drag'']
      \<and> (get_prop v (lit ''coordinate'') = None \<or> get_prop v (lit ''start_coordinate'') = None)
      \<longrightarrow> computer_parameters v = None)
   \<and> (action_in v [''wait'', ''hold_key'']
      \<and> \<not> (\<exists>n. get_prop v (lit ''duration'') = Some (JNum n))
      \<longrightarrow> computer_parameters v = None)
   \<and> (action_in v [''scroll'']
      \<and> (get_prop v (lit ''scroll_direction'') = None
         \<or> \<not> (\<exists>n. get_prop v (lit ''scroll_amount'') = Some (JNum n) \<and> 0 \<le> n))
      \<longrightarrow> computer_parameters v = None)
   \<and> (action_in v [''type'', ''key'', ''hold_key'']
      \<and> \<not> (\<exists>s. get_prop v (lit ''text'') = Some (JStr s) \<and> s \<noteq> [])
      \<longrightarrow> computer_parameters v = None)"
proof (cases "computer_parameters v")
  case None
  then show ?thesis by simp
next
  case (Some d)
  note acc = computer_accepted [OF Some]
  note rules = computer_requirements_rules [OF acc(1)]
  have pointer: "action_in v [''mouse_move'', ''left_click'', ''right_click'', ''middle_click'',
      ''double_click'', ''triple_click''] \<Longrightarrow> get_prop v (lit ''coordinate'') \<noteq> None"
    using rules(1) truthy_present by blast
  have drag: "action_in v [''left_click_drag'']
      \<Longrightarrow> get_prop v (lit ''coordinate'') \<noteq> None \<and> get_prop v (lit ''start_coordinate'') \<noteq> None"
    using rules(2) truthy_present by blast
  have timed: "action_in v [''wait'', ''hold_key'']
      \<Longrightarrow> \<exists>n. get_prop v (lit ''duration'') = Some (JNum n)"
  proof -
    assume "action_in v [''wait'', ''hold_key'']"
    then have "action_in v [''wait''] \<or> action_in v [''hold_key'']"
      by (auto simp: action_in_def)
    with rules(4,5) have "get_prop v (lit ''duration'') \<noteq> None" by blast
    from optional_number_present [OF acc(5) this] show ?thesis by blast
  qed
  have scroll: "action_in v [''scroll'']
      \<Longrightarrow> get_prop v (lit ''scroll_direction'') \<noteq> None
          \<and> (\<exists>n. get_prop v (lit ''scroll_amount'') = Some (JNum n) \<and> 0 \<le> n)"
  proof -
    assume a: "action_in v [''scroll'']"
    from rules(6) [OF a] truthy_present
    have dir: "get_prop v (lit ''scroll_direction'') \<noteq> None"
      and amt: "get_prop v (lit ''scroll_amount'') \<noteq> None" by blast+
    from optional_number_present [OF acc(7) amt] dir show ?thesis by force
  qed
  have textual: "action_in v [''type'', ''key'', ''hold_key'']
      \<Longrightarrow> \<exists>s. get_prop v (lit ''text'') = Some (JStr s) \<and> s \<noteq> []"
  proof -
    assume "action_in v [''type'', ''key'', ''hold_key'']"
    then have "action_in v [''type'', ''key''] \<or> action_in v [''hold_key'']"
      by (auto simp: action_in_def)
    with rules(3,4) have "truthy (get_prop v (lit ''text''))" by blast
    from optional_string_truthy [OF acc(4) this] show ?thesis .
  qed
  from pointer drag timed scroll textual show ?thesis by blast
qed

text \<open>A scroll without \<open>scroll_amount\<close> and a wait without \<open>duration\<close> are rejected;
  a scroll with a direction and an amount is accepted.\<close>

theorem computer_rules_enforced_witness:
  "computer_parameters
     (JObj [(lit ''action'', JStr (lit ''scroll'')),
            (lit ''scroll_direction'', JStr (lit ''down''))]) = None
   \<and> computer_parameters (JObj [(lit ''action'', JStr (lit ''wait''))]) = None
   \<and> computer_parameters
     (JObj [(lit ''action'', JStr (lit ''scroll'')),
            (lit ''scroll_direction'', JStr (lit ''down'')),
            (lit ''scroll_amount'', JNum 3)]) \<noteq> None"
proof -
  have "computer_parameters
     (JObj [(lit ''action'', JStr (lit ''scroll'')),
            (lit ''scroll_direction'', JStr (lit ''down''))]) = None"
    using computer_rules_enforced
      [of "JObj [(lit ''action'', JStr (lit ''scroll'')),
                 (lit ''scroll_direction'', JStr (lit ''down''))]"]
    by (simp add: action_in_def get_prop_def lit_inj)
  moreover have "computer_parameters (JObj [(lit ''action'', JStr (lit ''wait''))]) = None"
    using computer_rules_enforced [of "JObj [(lit ''action'', JStr (lit ''wait''))]"]
    by (simp add: action_in_def get_prop_def lit_inj)
  moreover have "computer_parameters
     (JObj [(lit ''action'', JStr (lit ''scroll'')),
            (lit ''scroll_direction'', JStr (lit ''down'')),
            (lit ''scroll_amount'', JNum 3)]) \<noteq> None"
    by code_simp
  ultimately show ?thesis by blast
qed

text \<open>The pointer action \<open>left_mouse_down\<close> is outside the source's list: a call of it
  without a coordinate is accepted.\<close>

theorem left_mouse_down_counterexample:
  "get_prop (JObj [(lit ''action'', JStr (lit ''left_mouse_down''))]) (lit ''coordinate'') = None
   \<and> computer_parameters (JObj [(lit ''action'', JStr (lit ''left_mouse_down''))]) \<noteq> None"
  by (intro conjI; code_simp)

text \<open>So are \<open>left_mouse_up\<close>, \<open>cursor_position\<close> and \<open>screenshot\<close>.\<close>

lemma press_needs_no_coordinate:
  "computer_parameters (JObj [(lit ''action'', JStr (lit ''left_mouse_up''))]) \<noteq> None"
  "computer_parameters (JObj [(lit ''action'', JStr (lit ''cursor_position''))]) \<noteq> None"
  "computer_parameters (JObj [(lit ''action'', JStr (lit ''screenshot''))]) \<noteq> None"
  by code_simp+

subsection \<open>The message_ask contract\<close>

lemma z_array_Some:
  "z_array elem n x = Some y \<Longrightarrow> \<exists>xs ys. x = JArr xs \<and> y = JArr ys \<and> map elem xs = map Some ys \<and> n \<le> length xs"
  by (auto simp: z_array_def dest: those_map_Some split: json.splits option.splits if_splits)

lemma z_array_accepts:
  assumes "n \<le> length xs" and "\<forall>x\<in>set xs. elem x \<noteq> None"
  shows "\<exists>ys. z_array elem n (JArr xs) = Some (JArr ys)"
proof -
  from assms(2) have "those (map elem xs) \<noteq> None"
    by (simp add: those_map_None_iff)
  with assms(1) show ?thesis by (auto simp: z_array_def)
qed

lemma message_ask_shape_distinct:
  "distinct (map fst (map (\<lambda>(k, f). (lit k, f :: zfield))
     [(''message'', a), (''attachment'', b), (''follow_ups_input'', c),
      (''follow_ups_select'', d)]))"
  by (simp add: lit_inj)

lemma message_ask_accepted:
  assumes "message_ask_parameters v = Some d"
  shows "\<exists>kvs out. v = JObj kvs \<and> d = JObj out
     \<and> optional (z_array InputQuestion 2) (map_of kvs (lit ''follow_ups_input''))
         = Some (map_of out (lit ''follow_ups_input''))
     \<and> optional (z_array SelectOption 2) (map_of kvs (lit ''follow_ups_select''))
         = Some (map_of out (lit ''follow_ups_select''))
     \<and> (truthy (map_of out (lit ''follow_ups_input''))
        \<or> truthy (map_of out (lit ''follow_ups_select'')))
     \<and> \<not> (truthy (map_of out (lit ''follow_ups_input''))
          \<and> truthy (map_of out (lit ''follow_ups_select'')))"
proof -
  let ?shape = "map (\<lambda>(k, f). (lit k, f))
     [(''message'', required (z_string (\<lambda>s. 1 \<le> length s))),
      (''attachment'', optional AbsolutePath),
      (''follow_ups_input'', optional (z_array InputQuestion 2)),
      (''follow_ups_select'', optional (z_array SelectOption 2))]"
  from assms obtain kvs out where v: "v = JObj kvs" and d: "d = JObj out"
    and ps: "parse_shape ?shape kvs = Some out"
    and r1: "truthy (get_prop d (lit ''follow_ups_input''))
           \<or> truthy (get_prop d (lit ''follow_ups_select''))"
    and r2: "\<not> (truthy (get_prop d (lit ''follow_ups_input''))
              \<and> truthy (get_prop d (lit ''follow_ups_select'')))"
    unfolding message_ask_parameters_def refine_Some by (blast dest: z_object_Some)
  note get = parse_shape_get [OF ps message_ask_shape_distinct]
  have f3: "optional (z_array InputQuestion 2) (map_of kvs (lit ''follow_ups_input''))
         = Some (map_of out (lit ''follow_ups_input''))"
    by (rule get) simp
  have f4: "optional (z_array SelectOption 2) (map_of kvs (lit ''follow_ups_select''))
         = Some (map_of out (lit ''follow_ups_select''))"
    by (rule get) simp
  from r1 r2 v d f3 f4 show ?thesis by (simp add: get_prop_def)
qed

lemma optional_array_present:
  "optional (z_array elem n) (Some x) = Some w \<Longrightarrow> truthy w"
  by (auto simp: optional_def dest!: z_array_Some)

lemma optional_absent: "optional s None = Some w \<Longrightarrow> \<not> truthy w"
  by (auto simp: optional_def)

text \<open>
  C5 (as amended). A call of \<open>message_ask\<close> that supplies both
  \<open>follow_ups_input\<close> and \<open>follow_ups_select\<close> is rejected, and so is one that
  supplies neither. One that supplies exactly one of the two, with at least two entries,
  is accepted when the rest of the call satisfies the contract: the message is a string
  that is not empty, the attachment (if any) is an absolute path under an allowed root,
  and every entry satisfies the contract of its kind.
\<close>

theorem message_ask_follow_ups:
  "(get_prop v (lit ''follow_ups_input'') \<noteq> None \<and> get_prop v (lit ''follow_ups_select'') \<noteq> None
      \<longrightarrow> message_ask_parameters v = None)
   \<and> (get_prop v (lit ''follow_ups_input'') = None \<and> get_prop v (lit ''follow_ups_select'') = None
      \<longrightarrow> message_ask_parameters v = None)
   \<and> ((\<exists>s. get_prop v (lit ''message'') = Some (JStr s) \<and> s \<noteq> [])
      \<and> optional AbsolutePath (get_prop v (lit ''attachment'')) \<noteq> None
      \<and> 2 \<le> length xs
      \<and> (get_prop v (lit ''follow_ups_input'') = Some (JArr xs)
           \<and> (\<forall>x\<in>set xs. InputQuestion x \<noteq> None)
           \<and> get_prop v (lit ''follow_ups_select'') = None
         \<or> get_prop v (lit ''follow_ups_select'') = Some (JArr xs)
           \<and> (\<forall>x\<in>set xs. SelectOption x \<noteq> None)
           \<and> get_prop v (lit ''follow_ups_input'') = None)
      \<longrightarrow> message_ask_parameters v \<noteq> None)"
proof (intro conjI impI)
  assume both: "get_prop v (lit ''follow_ups_input'') \<noteq> None
    \<and> get_prop v (lit ''follow_ups_select'') \<noteq> None"
  show "message_ask_parameters v = None"
  proof (rule ccontr)
    assume "message_ask_parameters v \<noteq> None"
    then obtain d where "message_ask_parameters v = Some d" by blast
    from message_ask_accepted [OF this] both show False
      by (auto simp: get_prop_def dest: optional_array_present)
  qed
next
  assume neither: "get_prop v (lit ''follow_ups_input'') = None
    \<and> get_prop v (lit ''follow_ups_select'') = None"
  show "message_ask_parameters v = None"
  proof (rule ccontr)
    assume "message_ask_parameters v \<noteq> None"
    then obtain d where "message_ask_parameters v = Some d" by blast
    from message_ask_accepted [OF this] neither show False
      by (auto simp: get_prop_def dest: optional_absent)
  qed
next
  assume h: "(\<exists>s. get_prop v (lit ''message'') = Some (JStr s) \<and> s \<noteq> [])
      \<and> optional AbsolutePath (get_prop v (lit ''attachment'')) \<noteq> None
      \<and> 2 \<le> length xs
      \<and> (get_prop v (lit ''follow_ups_input'') = Some (JArr xs)
           \<and> (\<forall>x\<in>set xs. InputQuestion x \<noteq> None)
           \<and> get_prop v (lit ''follow_ups_select'') = None
         \<or> get_prop v (lit ''follow_ups_select'') = Some (JArr xs)
           \<and> (\<forall>x\<in>set xs. SelectOption x \<noteq> None)
           \<and> get_prop v (lit ''follow_ups_input'') = None)"
  let ?shape = "map (\<lambda>(k, f). (lit k, f))
     [(''message'', required (z_string (\<lambda>s. 1 \<le> length s))),
      (''attachment'', optional AbsolutePath),
      (''follow_ups_input'', optional (z_array InputQuestion 2)),
      (''follow_ups_select'', optional (z_array SelectOption 2))]"
  from h obtain s where msg: "get_prop v (lit ''message'') = Some (JStr s)" and s: "s \<noteq> []"
    by blast
  from msg obtain kvs where v: "v = JObj kvs"
    by (cases v) (simp_all add: get_prop_def)
  from h have att: "optional AbsolutePath (map_of kvs (lit ''attachment'')) \<noteq> None"
    by (simp add: v get_prop_def)
  from msg s have m: "required (z_string (\<lambda>s. 1 \<le> length s)) (map_of kvs (lit ''message'')) \<noteq> None"
    by (cases s) (simp_all add: v get_prop_def required_def z_string_def)
  from h consider
    (inp) "map_of kvs (lit ''follow_ups_input'') = Some (JArr xs)"
          "\<forall>x\<in>set xs. InputQuestion x \<noteq> None"
          "map_of kvs (lit ''follow_ups_select'') = None"
  | (sel) "map_of kvs (lit ''follow_ups_select'') = Some (JArr xs)"
          "\<forall>x\<in>set xs. SelectOption x \<noteq> None"
          "map_of kvs (lit ''follow_ups_input'') = None"
    by (auto simp: v get_prop_def)
  then show "message_ask_parameters v \<noteq> None"
  proof cases
    case inp
    from h inp(2) obtain ys where ys: "z_array InputQuestion 2 (JArr xs) = Some (JArr ys)"
      using z_array_accepts [of 2 xs InputQuestion] by blast
    have "parse_shape ?shape kvs \<noteq> None"
      unfolding parse_shape_None_iff using m att inp ys by (simp add: optional_def)
    then obtain out where ps: "parse_shape ?shape kvs = Some out" by blast
    note get = parse_shape_get [OF ps message_ask_shape_distinct]
    have "optional (z_array InputQuestion 2) (map_of kvs (lit ''follow_ups_input''))
         = Some (map_of out (lit ''follow_ups_input''))"
      by (rule get) simp
    with inp(1) ys have o3: "map_of out (lit ''follow_ups_input'') = Some (JArr ys)"
      by (simp add: optional_def)
    have "optional (z_array SelectOption 2) (map_of kvs (lit ''follow_ups_select''))
         = Some (map_of out (lit ''follow_ups_select''))"
      by (rule get) simp
    with inp(3) have o4: "map_of out (lit ''follow_ups_select'') = None"
      by (simp add: optional_def)
    show ?thesis
      using ps o3 o4
      by (simp add: message_ask_parameters_def refine_def z_object_def v get_prop_def)
  next
    case sel
    from h sel(2) obtain ys where ys: "z_array SelectOption 2 (JArr xs) = Some (JArr ys)"
      using z_array_accepts [of 2 xs SelectOption] by blast
    have "parse_shape ?shape kvs \<noteq> None"
      unfolding parse_shape_None_iff using m att sel ys by (simp add: optional_def)
    then obtain out where ps: "parse_shape ?shape kvs = Some out" by blast
    note get = parse_shape_get [OF ps message_ask_shape_distinct]
    have "optional (z_array SelectOption 2) (map_of kvs (lit ''follow_ups_select''))
         = Some (map_of out (lit ''follow_ups_select''))"
      by (rule get) simp
    with sel(1) ys have o4: "map_of out (lit ''follow_ups_select'') = Some (JArr ys)"
      by (simp add: optional_def)
    have "optional (z_array InputQuestion 2) (map_of kvs (lit ''follow_ups_input''))
         = Some (map_of out (lit ''follow_ups_input''))"
      by (rule get) simp
    with sel(3) have o3: "map_of out (lit ''follow_ups_input'') = None"
      by (simp add: optional_def)
    show ?thesis
      using ps o3 o4
      by (simp add: message_ask_parameters_def refine_def z_object_def v get_prop_def)
  qed
qed

theorem message_ask_follow_ups_witness:
  "message_ask_parameters
     (JObj [(lit ''message'', JStr (lit ''Done'')),
            (lit ''follow_ups_input'',
             JArr [JObj [(lit ''type'', JStr (lit ''text'')), (lit ''question'', JStr (lit ''Why''))],
                   JObj [(lit ''type'', JStr (lit ''date'')), (lit ''question'', JStr (lit ''When''))]]),
            (lit ''follow_ups_select'',
             JArr [JObj [(lit ''emoji'', JStr (lit ''a'')), (lit ''title'', JStr (lit ''Yes'')),
                         (lit ''prompt'', JStr (lit ''Go on''))],
                   JObj [(lit ''emoji'', JStr (lit ''b'')), (lit ''title'', JStr (lit ''No'')),
                         (lit ''prompt'', JStr (lit ''Stop''))]])]) = None
   \<and> message_ask_parameters (JObj [(lit ''message'', JStr (lit ''Done''))]) = None
   \<and> message_ask_parameters
     (JObj [(lit ''message'', JStr (lit ''Done'')),
            (lit ''follow_ups_select'',
             JArr [JObj [(lit ''emoji'', JStr (lit ''a'')), (lit ''title'', JStr (lit ''Yes'')),
                         (lit ''prompt'', JStr (lit ''Go on''))],
                   JObj [(lit ''emoji'', JStr (lit ''b'')), (lit ''title'', JStr (lit ''No'')),
                         (lit ''prompt'', JStr (lit ''Stop''))]])]) \<noteq> None"
proof -
  let ?q1 = "JObj [(lit ''type'', JStr (lit ''text'')), (lit ''question'', JStr (lit ''Why''))]"
  let ?q2 = "JObj [(lit ''type'', JStr (lit ''date'')), (lit ''question'', JStr (lit ''When''))]"
  let ?o1 = "JObj [(lit ''emoji'', JStr (lit ''a'')), (lit ''title'', JStr (lit ''Yes'')),
                   (lit ''prompt'', JStr (lit ''Go on''))]"
  let ?o2 = "JObj [(lit ''emoji'', JStr (lit ''b'')), (lit ''title'', JStr (lit ''No'')),
                   (lit ''prompt'', JStr (lit ''Stop''))]"
  let ?both = "JObj [(lit ''message'', JStr (lit ''Done'')),
                     (lit ''follow_ups_input'', JArr [?q1, ?q2]),
                     (lit ''follow_ups_select'', JArr [?o1, ?o2])]"
  let ?neither = "JObj [(lit ''message'', JStr (lit ''Done''))]"
  let ?one = "JObj [(lit ''message'', JStr (lit ''Done'')),
                    (lit ''follow_ups_select'', JArr [?o1, ?o2])]"
  have o1: "SelectOption ?o1 \<noteq> None" by code_simp
  have o2: "SelectOption ?o2 \<noteq> None" by code_simp
  have "message_ask_parameters ?both = None"
    using message_ask_follow_ups [of ?both "[]"]
    by (simp add: get_prop_def lit_inj)
  moreover have "message_ask_parameters ?neither = None"
    using message_ask_follow_ups [of ?neither "[]"]
    by (simp add: get_prop_def lit_inj)
  moreover have "message_ask_parameters ?one \<noteq> None"
    using message_ask_follow_ups [of ?one "[?o1, ?o2]"] o1 o2
    by (simp add: get_prop_def lit_inj lit_Nil_iff optional_def)
  ultimately show ?thesis by blast
qed

text \<open>A call that supplies only \<open>follow_ups_input\<close>, with two entries whose question is
  empty, is rejected.\<close>

theorem message_ask_entries_counterexample:
  "get_prop
     (JObj [(lit ''message'', JStr (lit ''Done'')),
            (lit ''follow_ups_input'',
             JArr [JObj [(lit ''type'', JStr (lit ''text'')), (lit ''question'', JStr [])],
                   JObj [(lit ''type'', JStr (lit ''text'')), (lit ''question'', JStr [])]])])
     (lit ''follow_ups_select'') = None
   \<and> length [JObj [(lit ''type'', JStr (lit ''text'')), (lit ''question'', JStr [])],
              JObj [(lit ''type'', JStr (lit ''text'')), (lit ''question'', JStr [])]] = 2
   \<and> message_ask_parameters
     (JObj [(lit ''message'', JStr (lit ''Done'')),
            (lit ''follow_ups_input'',
             JArr [JObj [(lit ''type'', JStr (lit ''text'')), (lit ''question'', JStr [])],
                   JObj [(lit ''type'', JStr (lit ''text'')), (lit ''question'', JStr [])]])])
     = None"
  by (intro conjI; code_simp)

subsection \<open>The second loop of executeTools\<close>

lemma carries_screenshot_cases:
  "carries_screenshot output = Inl TypeError \<or> carries_screenshot output = Inr True
   \<or> carries_screenshot output = Inr False"
  by (auto simp: carries_screenshot_def split: json.splits)

lemma carries_screenshot_computer:
  "carries_screenshot output = Inr True \<Longrightarrow> toolName output = lit ''computer''"
  by (auto simp: carries_screenshot_def split: if_splits)

lemma fold_outputs_Inl:
  "fold_outputs ns outputs acc = Inl e \<Longrightarrow>
     e = TypeError \<and> (\<exists>output\<in>set outputs. carries_screenshot output = Inl TypeError)"
proof (induction outputs arbitrary: acc)
  case Nil
  then show ?case by (cases acc) simp
next
  case (Cons out outs)
  obtain newState mm where acc: "acc = (newState, mm)" by (cases acc)
  from carries_screenshot_cases [of out] Cons.prems show ?case
    unfolding acc by (auto split: if_splits dest!: Cons.IH)
qed

lemma fold_outputs_Inr:
  "\<forall>output\<in>set outputs. carries_screenshot output \<noteq> Inl TypeError
   \<Longrightarrow> \<exists>r. fold_outputs ns outputs acc = Inr r"
proof (induction outputs arbitrary: acc)
  case Nil
  then show ?case by (cases acc) simp
next
  case (Cons out outs)
  obtain newState mm where acc: "acc = (newState, mm)" by (cases acc)
  from Cons.prems have rest: "\<forall>output\<in>set outs. carries_screenshot output \<noteq> Inl TypeError"
    by simp
  from carries_screenshot_cases [of out] Cons.prems Cons.IH [OF rest] show ?case
    unfolding acc by auto
qed

lemma fold_outputs_messages:
  "fold_outputs ns outputs (newState, mm) = Inr (newState', mm')
   \<Longrightarrow> mm' = mm @ map (observation ns) (screenshots outputs)"
proof (induction outputs arbitrary: newState mm)
  case Nil
  then show ?case by (simp add: screenshots_def)
next
  case (Cons out outs)
  from carries_screenshot_cases [of out] Cons.prems show ?case
    by (auto simp: screenshots_def split: if_splits dest!: Cons.IH)
qed

lemma fold_outputs_screenshot:
  "fold_outputs ns outputs (newState, mm) = Inr (newState', mm')
   \<Longrightarrow> new_latest_screenshot newState' =
       (if screenshots outputs = [] then new_latest_screenshot newState
        else Some (get_prop (result (last (screenshots outputs))) (lit ''screenshot'')))"
proof (induction outputs arbitrary: newState mm)
  case Nil
  then show ?case by (simp add: screenshots_def)
next
  case (Cons out outs)
  from carries_screenshot_cases [of out] Cons.prems show ?case
    by (auto simp: screenshots_def split: if_splits dest!: Cons.IH)
qed

lemma fold_outputs_status:
  "fold_outputs ns outputs (newState, mm) = Inr (newState', mm')
   \<Longrightarrow> new_current_ui_status newState' =
       (if status_updates outputs = [] then new_current_ui_status newState
        else Some (Some (ui_status_of ns (last (status_updates outputs)))))"
proof (induction outputs arbitrary: newState mm)
  case Nil
  then show ?case by (simp add: status_updates_def)
next
  case (Cons out outs)
  from carries_screenshot_cases [of out] Cons.prems show ?case
    by (auto simp: status_updates_def lit_inj split: if_splits
             dest!: Cons.IH dest: carries_screenshot_computer)
qed

lemma fold_outputs_todo:
  "fold_outputs ns outputs (newState, mm) = Inr (newState', mm')
   \<Longrightarrow> new_current_todo_list newState' =
       (if todo_updates outputs = [] then new_current_todo_list newState
        else Some (map_of (input (last (todo_updates outputs))) (lit ''tasks'')))"
proof (induction outputs arbitrary: newState mm)
  case Nil
  then show ?case by (simp add: todo_updates_def)
next
  case (Cons out outs)
  from carries_screenshot_cases [of out] Cons.prems show ?case
    by (auto simp: todo_updates_def lit_inj split: if_splits
             dest!: Cons.IH dest: carries_screenshot_computer)
qed

lemma fold_outputs_others:
  "fold_outputs ns outputs (newState, mm) = Inr (newState', mm')
   \<Longrightarrow> new_chat_history newState' = new_chat_history newState
     \<and> new_agentOutcome newState' = new_agentOutcome newState"
proof (induction outputs arbitrary: newState mm)
  case Nil
  then show ?case by simp
next
  case (Cons out outs)
  from carries_screenshot_cases [of out] Cons.prems show ?case
    by (auto split: if_splits dest!: Cons.IH)
qed

lemma fold_outputs_no_error:
  "fold_outputs ns outs acc = Inr r
   \<Longrightarrow> \<forall>out\<in>set outs. carries_screenshot out \<noteq> Inl TypeError"
proof (induction outs arbitrary: acc)
  case Nil
  then show ?case by simp
next
  case (Cons out outs)
  obtain newState mm where acc: "acc = (newState, mm)" by (cases acc)
  from carries_screenshot_cases [of out] Cons.prems show ?case
    unfolding acc by (auto split: if_splits dest!: Cons.IH)
qed

lemma fold_deltas_fields:
  assumes "fold_deltas ns state outs = Inr upd"
  shows "new_chat_history upd =
       (if screenshots outs = [] then None
        else Some (chat_history state @ map (observation ns) (screenshots outs)))"
    and "new_latest_screenshot upd =
       (if screenshots outs = [] then None
        else Some (get_prop (result (last (screenshots outs))) (lit ''screenshot'')))"
    and "new_current_ui_status upd =
       (if status_updates outs = [] then None
        else Some (Some (ui_status_of ns (last (status_updates outs)))))"
    and "new_agentOutcome upd = None"
proof -
  from assms obtain newState mm where
    f: "fold_outputs ns outs (empty_partial, []) = Inr (newState, mm)"
    and upd: "upd = (if length mm \<noteq> 0
               then newState\<lparr>new_chat_history := Some (chat_history state @ mm)\<rparr>
               else newState)"
    by (auto simp: fold_deltas_def split: sum.splits)
  from fold_outputs_messages [OF f] have mm: "mm = map (observation ns) (screenshots outs)"
    by simp
  from fold_outputs_others [OF f] have o: "new_chat_history newState = None"
    "new_agentOutcome newState = None"
    by (simp_all add: empty_partial_def)
  from upd mm o show "new_chat_history upd =
       (if screenshots outs = [] then None
        else Some (chat_history state @ map (observation ns) (screenshots outs)))"
    by simp
  from fold_outputs_screenshot [OF f] upd show "new_latest_screenshot upd =
       (if screenshots outs = [] then None
        else Some (get_prop (result (last (screenshots outs))) (lit ''screenshot'')))"
    by (simp add: empty_partial_def)
  from fold_outputs_status [OF f] upd show "new_current_ui_status upd =
       (if status_updates outs = [] then None
        else Some (Some (ui_status_of ns (last (status_updates outs)))))"
    by (simp add: empty_partial_def)
  from upd o show "new_agentOutcome upd = None" by simp
qed

lemma fold_deltas_defined:
  "(\<exists>upd. fold_deltas ns state outs = Inr upd)
   \<longleftrightarrow> (\<forall>out\<in>set outs. carries_screenshot out \<noteq> Inl TypeError)"
proof
  assume "\<exists>upd. fold_deltas ns state outs = Inr upd"
  then obtain r where "fold_outputs ns outs (empty_partial, []) = Inr r"
    by (auto simp: fold_deltas_def split: sum.splits)
  then show "\<forall>out\<in>set outs. carries_screenshot out \<noteq> Inl TypeError"
    by (rule fold_outputs_no_error)
next
  assume "\<forall>out\<in>set outs. carries_screenshot out \<noteq> Inl TypeError"
  from fold_outputs_Inr [OF this, of ns "(empty_partial, [])"]
  show "\<exists>upd. fold_deltas ns state outs = Inr upd"
    by (auto simp: fold_deltas_def)
qed


lemma not_computer_no_screenshot:
  "toolName out \<noteq> lit ''computer'' \<Longrightarrow> carries_screenshot out = Inr False"
  by (simp add: carries_screenshot_def)

lemma fold_deltas_todo:
  assumes "fold_deltas ns state outs = Inr upd"
  shows "new_current_todo_list upd =
       (if todo_updates outs = [] then None
        else Some (map_of (input (last (todo_updates outs))) (lit ''tasks'')))"
proof -
  from assms obtain newState mm where
    f: "fold_outputs ns outs (empty_partial, []) = Inr (newState, mm)"
    and upd: "upd = (if length mm \<noteq> 0
               then newState\<lparr>new_chat_history := Some (chat_history state @ mm)\<rparr>
               else newState)"
    by (auto simp: fold_deltas_def split: sum.splits)
  from fold_outputs_todo [OF f] upd show ?thesis
    by (simp add: empty_partial_def)
qed

subsection \<open>The first loop of executeTools\<close>

lemma dispatch_append:
  "dispatch tools (pre @ calls) outs =
     (case dispatch tools pre outs of Inl e \<Rightarrow> Inl e | Inr outs' \<Rightarrow> dispatch tools calls outs')"
  by (induction pre arbitrary: outs) (auto split: option.splits sum.splits)

lemma dispatch_order:
  "dispatch tools calls outs = Inr outs' \<Longrightarrow>
     map (\<lambda>out. (toolName out, input out)) outs' =
       map (\<lambda>out. (toolName out, input out)) outs
       @ map (\<lambda>call. (name call, args call))
           (filter (\<lambda>call. \<exists>t\<in>set tools. tool_name t = name call) calls)"
proof (induction calls arbitrary: outs)
  case Nil
  then show ?case by simp
next
  case (Cons call calls)
  show ?case
  proof (cases "find (\<lambda>t. tool_name t = name call) tools")
    case None
    then have "\<not> (\<exists>t\<in>set tools. tool_name t = name call)"
      by (simp add: find_None_iff)
    with None Cons show ?thesis by simp
  next
    case (Some tool)
    then have "find (\<lambda>t. tool_name t = name call) tools \<noteq> None" by simp
    then have known: "\<exists>t\<in>set tools. tool_name t = name call"
      by (simp only: find_None_iff) blast
    from Some Cons.prems obtain raw where
      "dispatch tools calls (outs @ [\<lparr>toolName = name call, result = parse_raw raw,
                              input = args call\<rparr>]) = Inr outs'"
      by (auto split: sum.splits)
    from Cons.IH [OF this] known show ?thesis by simp
  qed
qed

lemma tool_call_id_plain: "\<not> is_tool_call arg \<Longrightarrow> tool_call_id (Some arg) None = None"
  by (simp add: tool_call_id_def)

lemma invoke_plain:
  "\<not> is_tool_call arg \<Longrightarrow>
     invoke t arg =
       (case schema t arg of
          None \<Rightarrow> Inl ToolInputParsingException
        | Some parsed \<Rightarrow> func t parsed)"
  by (simp add: invoke_def call_tool_def tool_call_id_plain split: option.splits sum.splits)

lemma dispatch_validated:
  "dispatch tools calls outs = Inr outs' \<Longrightarrow> out \<in> set outs' \<Longrightarrow>
     out \<in> set outs
     \<or> (\<exists>call\<in>set calls. \<exists>tool. find (\<lambda>t. tool_name t = name call) tools = Some tool
          \<and> toolName out = name call \<and> input out = args call
          \<and> (\<not> is_tool_call (JObj (args call))
               \<longrightarrow> schema tool (JObj (args call)) \<noteq> None))"
proof (induction calls arbitrary: outs)
  case Nil
  then show ?case by simp
next
  case (Cons call calls)
  show ?case
  proof (cases "find (\<lambda>t. tool_name t = name call) tools")
    case None
    with Cons.prems have "dispatch tools calls outs = Inr outs'" by simp
    from Cons.IH [OF this Cons.prems(2)] show ?thesis by auto
  next
    case (Some tool)
    from Some Cons.prems(1) obtain raw where
      raw: "invoke tool (JObj (args call)) = Inr raw" and
      rest: "dispatch tools calls (outs @ [\<lparr>toolName = name call, result = parse_raw raw,
                              input = args call\<rparr>]) = Inr outs'"
      by (auto split: sum.splits)
    from raw have ok: "\<not> is_tool_call (JObj (args call))
        \<longrightarrow> schema tool (JObj (args call)) \<noteq> None"
      by (auto simp: invoke_plain split: option.splits)
    from Cons.IH [OF rest Cons.prems(2)] Some ok show ?thesis by auto
  qed
qed

lemma dispatch_rejected:
  assumes "find (\<lambda>t. tool_name t = name call) tools = Some tool"
    and "\<not> is_tool_call (JObj (args call))"
    and "schema tool (JObj (args call)) = None"
  shows "\<exists>e. dispatch tools (pre @ call # post) outs = Inl e"
  using assms by (auto simp: dispatch_append invoke_plain split: sum.splits)

lemma find_computer:
  "find (\<lambda>t. tool_name t = lit ''computer'') (createAisdk5Tools rest env) =
     Some \<lparr>tool_name = lit ''computer'', schema = computer_parameters,
           func = aisdk5_func env (lit ''computer'')\<rparr>"
  by (simp add: createAisdk5Tools_def ScoutTools_def lit_inj)

lemma find_message_update:
  "find (\<lambda>t. tool_name t = lit ''message_update'') (createAisdk5Tools rest env) =
     Some \<lparr>tool_name = lit ''message_update'', schema = message_update_parameters,
           func = aisdk5_func env (lit ''message_update'')\<rparr>"
  by (simp add: createAisdk5Tools_def ScoutTools_def lit_inj)

lemma find_todo:
  "find (\<lambda>t. tool_name t = lit ''todo'') (createAisdk5Tools rest env) =
     Some \<lparr>tool_name = lit ''todo'', schema = todo_parameters,
           func = aisdk5_func env (lit ''todo'')\<rparr>"
  by (simp add: createAisdk5Tools_def ScoutTools_def lit_inj)

lemma tool_names:
  "map tool_name (createAisdk5Tools rest env) = map (lit \<circ> fst) (ScoutTools rest)"
  by (simp add: createAisdk5Tools_def ScoutTools_def)

lemma aisdk5_func_returns: "\<exists>v. aisdk5_func env nm inp = Inr (Json_text v)"
  by (auto simp: aisdk5_func_def split: sum.splits)

subsection \<open>The todo contract\<close>

lemma required_Some:
  "required s u = Some w \<Longrightarrow> \<exists>x y. u = Some x \<and> w = Some y \<and> s x = Some y"
  by (auto simp: required_def split: option.splits)

lemma Task_status:
  assumes "Task x = Some y"
  shows "get_prop y (lit ''status'') = get_prop x (lit ''status'')"
proof -
  let ?shape = "map (\<lambda>(k, f). (lit k, f))
     [(''id'', required (z_string (\<lambda>s. 1 \<le> length s))),
      (''title'', required (z_string (\<lambda>s. 1 \<le> length s))),
      (''status'', required TaskStatus)]"
  from assms obtain kvs out where x: "x = JObj kvs" and y: "y = JObj out"
    and ps: "parse_shape ?shape kvs = Some out"
    unfolding Task_def by (blast dest: z_object_Some)
  have "distinct (map fst ?shape)" by (simp add: lit_inj)
  from parse_shape_get [OF ps this, of "lit ''status''" "required TaskStatus"]
  have "required TaskStatus (map_of kvs (lit ''status'')) = Some (map_of out (lit ''status''))"
    by simp
  from required_plain [OF this] z_enum_plain
  have "map_of out (lit ''status'') = map_of kvs (lit ''status'')"
    unfolding TaskStatus_def by blast
  then show ?thesis by (simp add: x y get_prop_def)
qed

lemma in_progress_count_parsed:
  "map Task xs = map Some ys \<Longrightarrow> in_progress_count ys = in_progress_count xs"
proof (induction xs arbitrary: ys)
  case Nil
  then show ?case by (simp add: in_progress_count_def)
next
  case (Cons x xs)
  then obtain y ys' where ys: "ys = y # ys'" and y: "Task x = Some y"
    and rest: "map Task xs = map Some ys'"
    by (cases ys) auto
  from Cons.IH [OF rest] Task_status [OF y] show ?case
    by (simp add: ys in_progress_count_def)
qed

lemma todo_accepted:
  assumes "todo_parameters v = Some d"
  shows "\<exists>ts. get_prop v (lit ''tasks'') = Some (JArr ts) \<and> in_progress_count ts \<le> 1"
proof -
  let ?shape = "map (\<lambda>(k, f). (lit k, f))
     [(''tasks'', required (z_array Task 1)),
      (''request_user_approval'', default_to (JBool False) (optional z_boolean))]"
  from assms obtain kvs out where v: "v = JObj kvs" and d: "d = JObj out"
    and ps: "parse_shape ?shape kvs = Some out" and one: "one_in_progress d"
    unfolding todo_parameters_def refine_Some by (blast dest: z_object_Some)
  have "distinct (map fst ?shape)" by (simp add: lit_inj)
  from parse_shape_get [OF ps this, of "lit ''tasks''" "required (z_array Task 1)"]
  have "required (z_array Task 1) (map_of kvs (lit ''tasks'')) = Some (map_of out (lit ''tasks''))"
    by simp
  from required_Some [OF this]
  obtain x y where x: "map_of kvs (lit ''tasks'') = Some x"
    and y: "map_of out (lit ''tasks'') = Some y" and xy: "z_array Task 1 x = Some y"
    by blast
  from z_array_Some [OF xy] obtain xs ys where xs: "x = JArr xs" and ys: "y = JArr ys"
    and m: "map Task xs = map Some ys" by blast
  from one y ys have "in_progress_count ys \<le> 1"
    by (simp add: one_in_progress_def d get_prop_def)
  with in_progress_count_parsed [OF m] x xs show ?thesis
    by (simp add: v get_prop_def)
qed

subsection \<open>The task list\<close>

text \<open>The contract rejects a task list with two or more tasks \<open>in_progress\<close>.\<close>

lemma todo_rejects_two_in_progress:
  assumes "get_prop v (lit ''tasks'') = Some (JArr ts)" and "2 \<le> in_progress_count ts"
  shows "todo_parameters v = None"
proof (rule ccontr)
  assume "todo_parameters v \<noteq> None"
  then obtain d where "todo_parameters v = Some d" by blast
  from todo_accepted [OF this] assms show False by auto
qed

text \<open>When no call of the batch has arguments in the shape of a tool call, the task
  list that \<open>executeTools\<close> sets is the \<open>tasks\<close> of a todo call the contract
  accepted, with at most one task \<open>in_progress\<close>.\<close>

lemma executeTools_todo:
  assumes "executeTools ns (createAisdk5Tools rest env) state = Inr upd"
    and "new_current_todo_list upd = Some lst"
    and "\<forall>call\<in>set (actions state). \<not> is_tool_call (JObj (args call))"
  shows "\<exists>call\<in>set (actions state). name call = lit ''todo''
           \<and> todo_parameters (JObj (args call)) \<noteq> None
           \<and> lst = map_of (args call) (lit ''tasks'')
           \<and> at_most_one_in_progress lst"
proof -
  let ?tools = "createAisdk5Tools rest env"
  from assms(1) obtain outs where d: "dispatch ?tools (actions state) [] = Inr outs"
    and f: "fold_deltas ns state outs = Inr upd"
    by (auto simp: executeTools_def split: sum.splits)
  from fold_deltas_todo [OF f] assms(2) have ne: "todo_updates outs \<noteq> []"
    and lst: "lst = map_of (input (last (todo_updates outs))) (lit ''tasks'')"
    by (auto split: if_splits)
  let ?out = "last (todo_updates outs)"
  from ne have "?out \<in> set (todo_updates outs)" by (rule last_in_set)
  then have mem: "?out \<in> set outs" and nm: "toolName ?out = lit ''todo''"
    by (simp_all add: todo_updates_def)
  from dispatch_validated [OF d mem] obtain call tool where
    call: "call \<in> set (actions state)"
    and tool: "find (\<lambda>t. tool_name t = name call) ?tools = Some tool"
    and eqs: "toolName ?out = name call" "input ?out = args call"
    and ok: "\<not> is_tool_call (JObj (args call)) \<longrightarrow> schema tool (JObj (args call)) \<noteq> None"
    by auto
  from call assms(3) ok have ok': "schema tool (JObj (args call)) \<noteq> None" by blast
  from nm eqs(1) have call_nm: "name call = lit ''todo''" by simp
  with tool find_todo [of rest env] have "schema tool = todo_parameters" by auto
  with ok' obtain dd where acc: "todo_parameters (JObj (args call)) = Some dd" by auto
  from todo_accepted [OF acc] obtain ts where
    "map_of (args call) (lit ''tasks'') = Some (JArr ts)" "in_progress_count ts \<le> 1"
    by (auto simp: get_prop_def)
  with lst eqs(2) have "at_most_one_in_progress lst"
    by (simp add: at_most_one_in_progress_def)
  with call call_nm acc lst eqs(2) show ?thesis by auto
qed

text \<open>
  C6, at a todo call whose arguments have the shape of a tool call: \<open>type\<close> is
  \<open>tool_call\<close>, \<open>args\<close> holds one pending task, and \<open>tasks\<close> holds two tasks
  that are \<open>in_progress\<close>. The library validates \<open>args.args\<close>, which the contract
  accepts; \<open>executeTools\<close> keeps \<open>call.args\<close> as the input of the output and
  copies its \<open>tasks\<close>: the update, and the merged state, hold a task list with two
  tasks \<open>in_progress\<close>, a list that the contract itself rejects.
\<close>

theorem tool_call_shaped_todo_is_copied:
  "executeTools ns (createAisdk5Tools rest env)
     (state\<lparr>agentOutcome := Some \<lparr>tool_calls = Some
        [\<lparr>name = lit ''todo'',
          args = [(lit ''type'', JStr (lit ''tool_call'')),
                  (lit ''args'', JObj [(lit ''tasks'', JArr [sample_task ''1'' ''pending''])]),
                  (lit ''tasks'', JArr [sample_task ''1'' ''in_progress'',
                                        sample_task ''2'' ''in_progress''])]\<rparr>]\<rparr>\<rparr>)
   = Inr (empty_partial\<lparr>new_current_todo_list :=
            Some (Some (JArr [sample_task ''1'' ''in_progress'',
                              sample_task ''2'' ''in_progress'']))\<rparr>)
   \<and> current_todo_list
       (merge state
          (empty_partial\<lparr>new_current_todo_list :=
             Some (Some (JArr [sample_task ''1'' ''in_progress'',
                               sample_task ''2'' ''in_progress'']))\<rparr>))
     = Some (JArr [sample_task ''1'' ''in_progress'', sample_task ''2'' ''in_progress''])
   \<and> in_progress_count [sample_task ''1'' ''in_progress'', sample_task ''2'' ''in_progress''] = 2
   \<and> \<not> at_most_one_in_progress
         (Some (JArr [sample_task ''1'' ''in_progress'', sample_task ''2'' ''in_progress'']))
   \<and> todo_parameters
       (JObj [(lit ''tasks'', JArr [sample_task ''1'' ''in_progress'',
                                    sample_task ''2'' ''in_progress''])]) = None"
proof -
  let ?two = "JArr [sample_task ''1'' ''in_progress'', sample_task ''2'' ''in_progress'']"
  let ?inner = "JObj [(lit ''tasks'', JArr [sample_task ''1'' ''pending''])]"
  let ?args = "[(lit ''type'', JStr (lit ''tool_call'')), (lit ''args'', ?inner),
                (lit ''tasks'', ?two)]"
  let ?S = "state\<lparr>agentOutcome := Some \<lparr>tool_calls = Some
              [\<lparr>name = lit ''todo'', args = ?args\<rparr>]\<rparr>\<rparr>"
  let ?tool = "\<lparr>tool_name = lit ''todo'', schema = todo_parameters,
                func = aisdk5_func env (lit ''todo'')\<rparr>"
  let ?parsed = "JObj [(lit ''tasks'', JArr [sample_task ''1'' ''pending'']),
                       (lit ''request_user_approval'', JBool False)]"
  have ok: "todo_parameters ?inner = Some ?parsed"
    by code_simp
  obtain v where v: "aisdk5_func env (lit ''todo'') ?parsed = Inr (Json_text v)"
    using aisdk5_func_returns by blast
  have outer: "is_tool_call (JObj ?args)"
    and args: "get_prop (JObj ?args) (lit ''args'') = Some ?inner"
    and id: "get_prop (JObj ?args) (lit ''id'') = None"
    and inner: "\<not> is_tool_call ?inner"
    by (simp_all add: is_tool_call_def get_prop_def lit_inj)
  have i: "invoke ?tool (JObj ?args) = Inr (Json_text v)"
    by (simp add: invoke_def call_tool_def tool_call_id_def outer args id inner ok v)
  let ?out = "\<lparr>toolName = lit ''todo'', result = v, input = ?args\<rparr>"
  have d: "dispatch (createAisdk5Tools rest env) (actions ?S) [] = Inr [?out]"
    by (simp add: actions_def find_todo i parse_raw_def)
  have no: "carries_screenshot ?out = Inr False"
    by (simp add: not_computer_no_screenshot lit_inj)
  have f: "fold_deltas ns ?S [?out] =
     Inr (empty_partial\<lparr>new_current_todo_list := Some (Some ?two)\<rparr>)"
    by (simp add: fold_deltas_def no lit_inj)
  have e: "executeTools ns (createAisdk5Tools rest env) ?S =
     Inr (empty_partial\<lparr>new_current_todo_list := Some (Some ?two)\<rparr>)"
    by (simp add: executeTools_def d f)
  have m: "current_todo_list
       (merge state (empty_partial\<lparr>new_current_todo_list := Some (Some ?two)\<rparr>)) = Some ?two"
    by (simp add: merge_def empty_partial_def)
  have c: "in_progress_count [sample_task ''1'' ''in_progress'',
                              sample_task ''2'' ''in_progress''] = 2"
    by code_simp
  then have n: "\<not> at_most_one_in_progress (Some ?two)"
    by (simp add: at_most_one_in_progress_def)
  have r: "todo_parameters (JObj [(lit ''tasks'', ?two)]) = None"
    by (rule todo_rejects_two_in_progress [where ts = "[sample_task ''1'' ''in_progress'',
          sample_task ''2'' ''in_progress'']"]) (simp_all add: get_prop_def c)
  from e m c n r show ?thesis by blast
qed

subsection \<open>The graph\<close>









text \<open>
  C8. The edge out of the agent node depends on the pending proposal only: without
  calls (an absent outcome, an absent list or an empty list) it leads to the end, with
  at least one call it leads to the tools node; the edge out of the tools node leads
  back to the agent node.
\<close>

theorem routing:
  "next_node N_agent state = (if actions state = [] then N_END else N_tools)
   \<and> (agentOutcome state = agentOutcome other
      \<longrightarrow> next_node N_agent state = next_node N_agent other)
   \<and> next_node N_tools state = N_agent
   \<and> (step ns w (N_agent, state) = Inr (nd', state')
      \<longrightarrow> nd' = (if actions state' = [] then N_END else N_tools))
   \<and> (step ns w (N_tools, state) = Inr (nd', state') \<longrightarrow> nd' = N_agent)"
  by (auto simp: shouldContinue_def actions_def split: option.splits sum.splits)

theorem routing_witness:
  "next_node N_agent (sample_state []) = N_END
   \<and> next_node N_agent (sample_state [todo_call []]) = N_tools
   \<and> next_node N_tools (sample_state []) = N_agent
   \<and> step sample_ns sample_workflow (N_tools, sample_state [])
       = Inr (N_agent, sample_state [])
   \<and> step sample_ns sample_workflow (N_agent, sample_state [todo_call []])
       = Inr (N_END, (sample_state [todo_call []])\<lparr>agentOutcome := Some \<lparr>tool_calls = None\<rparr>\<rparr>)"
proof -
  have a: "actions (sample_state []) = []"
    and b: "actions (sample_state [todo_call []]) \<noteq> []"
    by (simp_all add: actions_def sample_state_def)
  have s1: "step sample_ns sample_workflow (N_tools, sample_state [])
       = Inr (N_agent, sample_state [])"
    by code_simp
  have s2: "step sample_ns sample_workflow (N_agent, sample_state [todo_call []])
       = Inr (N_END, (sample_state [todo_call []])\<lparr>agentOutcome := Some \<lparr>tool_calls = None\<rparr>\<rparr>)"
    by code_simp
  from routing [of "sample_state []" "sample_state []" sample_ns sample_workflow
                   N_agent "sample_state []"] a s1
  have "next_node N_agent (sample_state []) = N_END"
    and "next_node N_tools (sample_state []) = N_agent"
    by simp_all
  moreover from routing [of "sample_state [todo_call []]"] b
  have "next_node N_agent (sample_state [todo_call []]) = N_tools" by simp
  ultimately show ?thesis using s1 s2 by blast
qed

subsection \<open>Unknown tools\<close>

lemma dispatch_unknown:
  assumes "\<forall>t\<in>set tools. tool_name t \<noteq> name call"
  shows "dispatch tools (pre @ call # post) outs = dispatch tools (pre @ post) outs"
proof -
  from assms have "find (\<lambda>t. tool_name t = name call) tools = None"
    by (simp add: find_None_iff)
  then show ?thesis by (auto simp: dispatch_append split: sum.splits)
qed

text \<open>
  C9. A call whose name is the name of no tool is dropped: the batch yields the
  outputs, the error or the update that it yields without that call. The outputs of a
  batch are its calls to known tools, in the order of the proposal. The name
  \<open>not_a_real_tool\<close> is the name of no tool of the registry.
\<close>

theorem unknown_tool_dropped:
  "((\<forall>t\<in>set tools. tool_name t \<noteq> name call)
      \<longrightarrow> dispatch tools (pre @ call # post) [] = dispatch tools (pre @ post) []
        \<and> (actions state = pre @ call # post \<and> actions state' = pre @ post
             \<and> chat_history state' = chat_history state
           \<longrightarrow> executeTools ns tools state = executeTools ns tools state'))
   \<and> (dispatch tools calls [] = Inr outs
      \<longrightarrow> map (\<lambda>out. (toolName out, input out)) outs =
          map (\<lambda>call. (name call, args call))
            (filter (\<lambda>call. \<exists>t\<in>set tools. tool_name t = name call) calls))
   \<and> (\<forall>t\<in>set (createAisdk5Tools rest env). tool_name t \<noteq> lit ''not_a_real_tool'')"
proof (intro conjI impI)
  assume h: "\<forall>t\<in>set tools. tool_name t \<noteq> name call"
  then show d: "dispatch tools (pre @ call # post) [] = dispatch tools (pre @ post) []"
    by (rule dispatch_unknown)
  assume "actions state = pre @ call # post \<and> actions state' = pre @ post
             \<and> chat_history state' = chat_history state"
  with d show "executeTools ns tools state = executeTools ns tools state'"
    by (auto simp: executeTools_def fold_deltas_def split: sum.splits)
next
  assume "dispatch tools calls [] = Inr outs"
  from dispatch_order [OF this]
  show "map (\<lambda>out. (toolName out, input out)) outs =
          map (\<lambda>call. (name call, args call))
            (filter (\<lambda>call. \<exists>t\<in>set tools. tool_name t = name call) calls)"
    by simp
next
  have nin: "lit ''not_a_real_tool'' \<notin> set (map tool_name (createAisdk5Tools rest env))"
    unfolding tool_names by (simp add: ScoutTools_def lit_inj)
  show "\<forall>t\<in>set (createAisdk5Tools rest env). tool_name t \<noteq> lit ''not_a_real_tool''"
  proof
    fix t
    assume "t \<in> set (createAisdk5Tools rest env)"
    then have "tool_name t \<in> set (map tool_name (createAisdk5Tools rest env))"
      by simp
    with nin show "tool_name t \<noteq> lit ''not_a_real_tool''"
      by metis
  qed
qed

theorem unknown_tool_dropped_witness:
  "dispatch sample_tools
     [\<lparr>name = lit ''not_a_real_tool'', args = []\<rparr>, todo_call [sample_task ''1'' ''pending'']] []
   = dispatch sample_tools [todo_call [sample_task ''1'' ''pending'']] []
   \<and> dispatch sample_tools
     [\<lparr>name = lit ''not_a_real_tool'', args = []\<rparr>, todo_call [sample_task ''1'' ''pending'']] []
   = Inr [\<lparr>toolName = lit ''todo'',
           result = JObj [(lit ''screenshot'', JStr (lit ''iVBORw0KGgo''))],
           input = [(lit ''tasks'', JArr [sample_task ''1'' ''pending''])]\<rparr>]
   \<and> executeTools sample_ns sample_tools
       (sample_state [\<lparr>name = lit ''not_a_real_tool'', args = []\<rparr>,
                      todo_call [sample_task ''1'' ''pending'']])
     = executeTools sample_ns sample_tools (sample_state [todo_call [sample_task ''1'' ''pending'']])"
proof -
  let ?bad = "\<lparr>name = lit ''not_a_real_tool'', args = []\<rparr>"
  let ?good = "todo_call [sample_task ''1'' ''pending'']"
  note inst = unknown_tool_dropped
    [where tools = sample_tools and call = ?bad and pre = "[]" and post = "[?good]"
       and rest = sample_rest and env = sample_env and ns = sample_ns
       and state = "sample_state [?bad, ?good]" and state' = "sample_state [?good]"]
  have u: "\<forall>t\<in>set sample_tools. tool_name t \<noteq> name ?bad"
    using inst by (simp add: sample_tools_def)
  have a: "actions (sample_state [?bad, ?good]) = [] @ ?bad # [?good]
      \<and> actions (sample_state [?good]) = [] @ [?good]
      \<and> chat_history (sample_state [?good]) = chat_history (sample_state [?bad, ?good])"
    by (simp add: actions_def sample_state_def)
  from inst u a have "dispatch sample_tools [?bad, ?good] [] = dispatch sample_tools [?good] []"
    and "executeTools sample_ns sample_tools (sample_state [?bad, ?good])
         = executeTools sample_ns sample_tools (sample_state [?good])"
    by simp_all
  moreover have "dispatch sample_tools [?bad, ?good] []
     = Inr [\<lparr>toolName = lit ''todo'',
             result = JObj [(lit ''screenshot'', JStr (lit ''iVBORw0KGgo''))],
             input = [(lit ''tasks'', JArr [sample_task ''1'' ''pending''])]\<rparr>]"
    by code_simp
  ultimately show ?thesis by blast
qed

subsection \<open>A call that breaks its contract\<close>

text \<open>
  C1, at a scroll call without \<open>scroll_amount\<close>: the contract of the computer tool
  rejects the arguments, \<open>tool.invoke\<close> rejects before \<open>func\<close> (and its
  \<open>catch\<close>) runs, and \<open>executeTools\<close>, which has no handler around the call,
  rejects with it: no output is produced for the call, and the step does not return.
\<close>

theorem contract_violation_propagates:
  "executeTools ns (createAisdk5Tools rest env)
     (state\<lparr>agentOutcome := Some \<lparr>tool_calls = Some
        [\<lparr>name = lit ''computer'',
          args = [(lit ''action'', JStr (lit ''scroll'')),
                  (lit ''scroll_direction'', JStr (lit ''down''))]\<rparr>]\<rparr>\<rparr>)
   = Inl ToolInputParsingException"
proof -
  have "computer_parameters
     (JObj [(lit ''action'', JStr (lit ''scroll'')),
            (lit ''scroll_direction'', JStr (lit ''down''))]) = None"
    by code_simp
  moreover have "\<not> is_tool_call
     (JObj [(lit ''action'', JStr (lit ''scroll'')),
            (lit ''scroll_direction'', JStr (lit ''down''))])"
    by (simp add: is_tool_call_def get_prop_def lit_inj)
  ultimately show ?thesis
    by (simp add: executeTools_def actions_def find_computer invoke_plain)
qed

text \<open>In general: a batch with a call to a known tool whose arguments (not in the shape
  of a tool call) the schema of the tool rejects makes \<open>executeTools\<close> throw.\<close>

lemma violation_aborts_batch:
  assumes "call \<in> set (actions state)"
    and "find (\<lambda>t. tool_name t = name call) tools = Some tool"
    and "\<not> is_tool_call (JObj (args call))"
    and "schema tool (JObj (args call)) = None"
  shows "\<exists>e. executeTools ns tools state = Inl e"
proof -
  from assms(1) obtain pre post where "actions state = pre @ call # post"
    by (auto dest: split_list)
  with dispatch_rejected [OF assms(2,3,4), of pre post "[]"] show ?thesis
    by (auto simp: executeTools_def)
qed

text \<open>A computer call that the environment answers with \<open>null\<close> makes the second loop
  read a property of \<open>null\<close>.\<close>

lemma null_result_propagates:
  "executeTools ns (createAisdk5Tools rest (\<lambda>tool inp. Inr JNull))
     (state\<lparr>agentOutcome := Some \<lparr>tool_calls = Some
        [\<lparr>name = lit ''computer'',
          args = [(lit ''action'', JStr (lit ''screenshot''))]\<rparr>]\<rparr>\<rparr>)
   = Inl TypeError"
proof -
  have "computer_parameters (JObj [(lit ''action'', JStr (lit ''screenshot''))])
        = Some (JObj [(lit ''action'', JStr (lit ''screenshot''))])"
    by code_simp
  moreover have "\<not> is_tool_call (JObj [(lit ''action'', JStr (lit ''screenshot''))])"
    by (simp add: is_tool_call_def get_prop_def lit_inj)
  ultimately show ?thesis
    by (simp add: executeTools_def actions_def find_computer invoke_plain aisdk5_func_def
          parse_raw_def fold_deltas_def carries_screenshot_def)
qed

text \<open>A failure of the environment is caught by \<open>func\<close> and returned as a document.\<close>

lemma environment_failure_is_data:
  assumes "env nm inp = Inl msg"
  shows "aisdk5_func env nm inp =
     Inr (Json_text (JObj [(lit ''error'', JStr msg), (lit ''tool'', JStr nm),
                           (lit ''input'', inp), (lit ''status'', JStr (lit ''FAILURE''))]))"
  using assms by (simp add: aisdk5_func_def)

subsection \<open>Progress reports\<close>

text \<open>
  C2. When the outputs of a batch hold a \<open>message_update\<close> output, the merged state
  has as \<open>current_ui_status\<close> the record built from the input of the last of them: its
  \<open>message\<close>, \<open>status\<close> and \<open>status_emoji\<close>, which for strings are the
  strings themselves. A \<open>message_update\<close> output adds nothing to the conversation
  of the update: the batch without it gives the same \<open>chat_history\<close>. For the call
  with message and status \<open>Scanning files\<close> and the emoji U+1F50D (the code units
  D83D DD0D), the merged state is the state with that status, and nothing else changed.
\<close>

theorem message_update_sets_status:
  "(dispatch tools (actions state) [] = Inr outs \<and> executeTools ns tools state = Inr upd
      \<and> status_updates outs \<noteq> []
      \<longrightarrow> current_ui_status (merge state upd)
          = Some (ui_status_of ns (last (status_updates outs))))
   \<and> (map_of (input out) (lit ''message'') = Some (JStr m)
      \<and> map_of (input out) (lit ''status'') = Some (JStr s)
      \<and> map_of (input out) (lit ''status_emoji'') = Some (JStr e)
      \<longrightarrow> ui_status_of ns out = \<lparr>message = m, status = s, emoji = e\<rparr>)
   \<and> (toolName out = lit ''message_update''
      \<and> fold_deltas ns state (pre @ out # post) = Inr upd
      \<longrightarrow> (\<exists>upd'. fold_deltas ns state (pre @ post) = Inr upd'
                \<and> new_chat_history upd' = new_chat_history upd))
   \<and> (actions state =
        [\<lparr>name = lit ''message_update'',
          args = [(lit ''message'', JStr (lit ''Scanning files'')),
                  (lit ''status'', JStr (lit ''Scanning files'')),
                  (lit ''status_emoji'', JStr [0xD83D, 0xDD0D])]\<rparr>]
      \<longrightarrow> (\<exists>upd. executeTools ns (createAisdk5Tools rest env) state = Inr upd
             \<and> merge state upd =
                 state\<lparr>current_ui_status :=
                         Some \<lparr>message = lit ''Scanning files'',
                               status = lit ''Scanning files'',
                               emoji = [0xD83D, 0xDD0D]\<rparr>\<rparr>))"
proof (intro conjI impI)
  assume h: "dispatch tools (actions state) [] = Inr outs
    \<and> executeTools ns tools state = Inr upd \<and> status_updates outs \<noteq> []"
  then have "fold_deltas ns state outs = Inr upd"
    by (auto simp: executeTools_def)
  from fold_deltas_fields(3) [OF this] h
  show "current_ui_status (merge state upd)
          = Some (ui_status_of ns (last (status_updates outs)))"
    by (simp add: merge_def)
next
  assume "map_of (input out) (lit ''message'') = Some (JStr m)
      \<and> map_of (input out) (lit ''status'') = Some (JStr s)
      \<and> map_of (input out) (lit ''status_emoji'') = Some (JStr e)"
  then show "ui_status_of ns out = \<lparr>message = m, status = s, emoji = e\<rparr>"
    by (simp add: ui_status_of_def String_js_def)
next
  assume h: "toolName out = lit ''message_update''
      \<and> fold_deltas ns state (pre @ out # post) = Inr upd"
  then have f: "fold_deltas ns state (pre @ out # post) = Inr upd" by simp
  from h have no: "carries_screenshot out = Inr False"
    by (simp add: not_computer_no_screenshot lit_inj)
  then have same: "screenshots (pre @ out # post) = screenshots (pre @ post)"
    by (simp add: screenshots_def)
  from f have "\<exists>upd. fold_deltas ns state (pre @ out # post) = Inr upd" by blast
  then have "\<forall>out\<in>set (pre @ out # post). carries_screenshot out \<noteq> Inl TypeError"
    by (simp only: fold_deltas_defined)
  then have "\<forall>out\<in>set (pre @ post). carries_screenshot out \<noteq> Inl TypeError"
    by simp
  then have "\<exists>upd'. fold_deltas ns state (pre @ post) = Inr upd'"
    by (simp only: fold_deltas_defined)
  then obtain upd' where f': "fold_deltas ns state (pre @ post) = Inr upd'" by blast
  from fold_deltas_fields(1) [OF f] fold_deltas_fields(1) [OF f'] same
  have "new_chat_history upd' = new_chat_history upd" by simp
  with f' show "\<exists>upd'. fold_deltas ns state (pre @ post) = Inr upd'
                \<and> new_chat_history upd' = new_chat_history upd"
    by blast
next
  let ?args = "[(lit ''message'', JStr (lit ''Scanning files'')),
                (lit ''status'', JStr (lit ''Scanning files'')),
                (lit ''status_emoji'', JStr [0xD83D, 0xDD0D])]"
  assume a: "actions state = [\<lparr>name = lit ''message_update'', args = ?args\<rparr>]"
  have ok: "message_update_parameters (JObj ?args) = Some (JObj ?args)"
    by code_simp
  obtain v where v: "aisdk5_func env (lit ''message_update'') (JObj ?args) = Inr (Json_text v)"
    using aisdk5_func_returns by blast
  let ?out = "\<lparr>toolName = lit ''message_update'', result = v, input = ?args\<rparr>"
  have plain: "\<not> is_tool_call (JObj ?args)"
    by (simp add: is_tool_call_def get_prop_def lit_inj)
  have d: "dispatch (createAisdk5Tools rest env) (actions state) [] = Inr [?out]"
    by (simp add: a find_message_update invoke_plain plain ok v parse_raw_def)
  have no: "carries_screenshot ?out = Inr False"
    by (simp add: not_computer_no_screenshot lit_inj)
  have f: "fold_deltas ns state [?out] =
     Inr (empty_partial\<lparr>new_current_ui_status := Some (Some (ui_status_of ns ?out))\<rparr>)"
    by (simp add: fold_deltas_def no)
  have u: "ui_status_of ns ?out =
     \<lparr>message = lit ''Scanning files'', status = lit ''Scanning files'',
      emoji = [0xD83D, 0xDD0D]\<rparr>"
    by (simp add: ui_status_of_def String_js_def lit_inj)
  have e: "executeTools ns (createAisdk5Tools rest env) state =
     Inr (empty_partial\<lparr>new_current_ui_status := Some (Some (ui_status_of ns ?out))\<rparr>)"
    by (simp add: executeTools_def d f)
  have "merge state (empty_partial\<lparr>new_current_ui_status := Some (Some (ui_status_of ns ?out))\<rparr>)
      = state\<lparr>current_ui_status := Some (ui_status_of ns ?out)\<rparr>"
    by (simp add: merge_def empty_partial_def)
  with e u show "\<exists>upd. executeTools ns (createAisdk5Tools rest env) state = Inr upd
             \<and> merge state upd =
                 state\<lparr>current_ui_status :=
                         Some \<lparr>message = lit ''Scanning files'',
                               status = lit ''Scanning files'',
                               emoji = [0xD83D, 0xDD0D]\<rparr>\<rparr>"
    by simp
qed

theorem message_update_sets_status_witness:
  "\<exists>upd. executeTools sample_ns sample_tools
           (sample_state [message_update_call ''one'', message_update_call ''two'']) = Inr upd
         \<and> current_ui_status
             (merge (sample_state [message_update_call ''one'', message_update_call ''two''])
                upd)
           = Some \<lparr>message = lit ''two'', status = lit ''Working'', emoji = lit ''*''\<rparr>
         \<and> new_chat_history upd = None"
proof -
  let ?S = "sample_state [message_update_call ''one'', message_update_call ''two'']"
  let ?o1 = "\<lparr>toolName = lit ''message_update'',
              result = JObj [(lit ''screenshot'', JStr (lit ''iVBORw0KGgo''))],
              input = args (message_update_call ''one'')\<rparr>"
  let ?o2 = "\<lparr>toolName = lit ''message_update'',
              result = JObj [(lit ''screenshot'', JStr (lit ''iVBORw0KGgo''))],
              input = args (message_update_call ''two'')\<rparr>"
  let ?U = "empty_partial\<lparr>new_current_ui_status :=
              Some (Some \<lparr>message = lit ''two'', status = lit ''Working'', emoji = lit ''*''\<rparr>)\<rparr>"
  note inst = message_update_sets_status
    [where tools = sample_tools and state = ?S and ns = sample_ns and upd = ?U
       and outs = "[?o1, ?o2]" and out = ?o2 and pre = "[?o1]" and post = "[]"
       and m = "lit ''two''" and s = "lit ''Working''" and e = "lit ''*''"]
  have d: "dispatch sample_tools (actions ?S) [] = Inr [?o1, ?o2]" by code_simp
  have x: "executeTools sample_ns sample_tools ?S = Inr ?U" by code_simp
  have n: "status_updates [?o1, ?o2] \<noteq> []" by code_simp
  have l: "last (status_updates [?o1, ?o2]) = ?o2" by code_simp
  have i: "map_of (input ?o2) (lit ''message'') = Some (JStr (lit ''two''))
      \<and> map_of (input ?o2) (lit ''status'') = Some (JStr (lit ''Working''))
      \<and> map_of (input ?o2) (lit ''status_emoji'') = Some (JStr (lit ''*''))"
    by code_simp
  from inst d x n l i
  have "current_ui_status (merge ?S ?U)
      = Some \<lparr>message = lit ''two'', status = lit ''Working'', emoji = lit ''*''\<rparr>"
    by simp
  moreover have "new_chat_history ?U = None" by (simp add: empty_partial_def)
  ultimately show ?thesis using x by blast
qed

subsection \<open>Several outputs of one kind\<close>

text \<open>
  C10. The outputs of a batch are its calls to known tools, in the order of the
  proposal. In the update of the batch, \<open>latest_screenshot\<close> comes from the last
  output that carries a screenshot, \<open>current_ui_status\<close> from the last
  \<open>message_update\<close> output and \<open>current_todo_list\<close> from the last \<open>todo\<close>
  output; and every output that carries a screenshot has its own turn in the
  \<open>chat_history\<close> of the update, in that order, after the conversation of the state.
\<close>

theorem last_outcome_wins:
  "dispatch tools (actions state) [] = Inr outs \<and> executeTools ns tools state = Inr upd
   \<longrightarrow> map (\<lambda>out. (toolName out, input out)) outs =
         map (\<lambda>call. (name call, args call))
           (filter (\<lambda>call. \<exists>t\<in>set tools. tool_name t = name call) (actions state))
     \<and> new_latest_screenshot upd =
         (if screenshots outs = [] then None
          else Some (get_prop (result (last (screenshots outs))) (lit ''screenshot'')))
     \<and> new_current_ui_status upd =
         (if status_updates outs = [] then None
          else Some (Some (ui_status_of ns (last (status_updates outs)))))
     \<and> new_current_todo_list upd =
         (if todo_updates outs = [] then None
          else Some (map_of (input (last (todo_updates outs))) (lit ''tasks'')))
     \<and> new_chat_history upd =
         (if screenshots outs = [] then None
          else Some (chat_history state @ map (observation ns) (screenshots outs)))"
proof
  assume h: "dispatch tools (actions state) [] = Inr outs \<and> executeTools ns tools state = Inr upd"
  then have f: "fold_deltas ns state outs = Inr upd"
    by (auto simp: executeTools_def)
  from h have d: "dispatch tools (actions state) [] = Inr outs" by simp
  from dispatch_order [OF d]
  have "map (\<lambda>out. (toolName out, input out)) outs =
         map (\<lambda>call. (name call, args call))
           (filter (\<lambda>call. \<exists>t\<in>set tools. tool_name t = name call) (actions state))"
    by simp
  with fold_deltas_fields(1,2,3) [OF f] fold_deltas_todo [OF f]
  show "map (\<lambda>out. (toolName out, input out)) outs =
         map (\<lambda>call. (name call, args call))
           (filter (\<lambda>call. \<exists>t\<in>set tools. tool_name t = name call) (actions state))
     \<and> new_latest_screenshot upd =
         (if screenshots outs = [] then None
          else Some (get_prop (result (last (screenshots outs))) (lit ''screenshot'')))
     \<and> new_current_ui_status upd =
         (if status_updates outs = [] then None
          else Some (Some (ui_status_of ns (last (status_updates outs)))))
     \<and> new_current_todo_list upd =
         (if todo_updates outs = [] then None
          else Some (map_of (input (last (todo_updates outs))) (lit ''tasks'')))
     \<and> new_chat_history upd =
         (if screenshots outs = [] then None
          else Some (chat_history state @ map (observation ns) (screenshots outs)))"
    by blast
qed

theorem last_outcome_wins_witness:
  "\<exists>upd. executeTools sample_ns sample_tools
           (sample_state [type_call ''AAAA'', message_update_call ''one'', type_call ''BBBB'',
                          message_update_call ''two'',
                          todo_call [sample_task ''1'' ''pending''],
                          todo_call [sample_task ''2'' ''completed'']]) = Inr upd
         \<and> new_latest_screenshot upd = Some (Some (JStr (lit ''BBBB'')))
         \<and> new_current_ui_status upd
             = Some (Some \<lparr>message = lit ''two'', status = lit ''Working'', emoji = lit ''*''\<rparr>)
         \<and> new_current_todo_list upd = Some (Some (JArr [sample_task ''2'' ''completed'']))
         \<and> map_option length (new_chat_history upd) = Some 3"
proof -
  let ?S = "sample_state [type_call ''AAAA'', message_update_call ''one'', type_call ''BBBB'',
                          message_update_call ''two'',
                          todo_call [sample_task ''1'' ''pending''],
                          todo_call [sample_task ''2'' ''completed'']]"
  let ?shot = "JObj [(lit ''screenshot'', JStr (lit ''iVBORw0KGgo''))]"
  let ?a = "\<lparr>toolName = lit ''computer'',
             result = JObj [(lit ''screenshot'', JStr (lit ''AAAA''))],
             input = args (type_call ''AAAA'')\<rparr>"
  let ?b = "\<lparr>toolName = lit ''computer'',
             result = JObj [(lit ''screenshot'', JStr (lit ''BBBB''))],
             input = args (type_call ''BBBB'')\<rparr>"
  let ?m1 = "\<lparr>toolName = lit ''message_update'', result = ?shot,
              input = args (message_update_call ''one'')\<rparr>"
  let ?m2 = "\<lparr>toolName = lit ''message_update'', result = ?shot,
              input = args (message_update_call ''two'')\<rparr>"
  let ?t1 = "\<lparr>toolName = lit ''todo'', result = ?shot,
              input = args (todo_call [sample_task ''1'' ''pending''])\<rparr>"
  let ?t2 = "\<lparr>toolName = lit ''todo'', result = ?shot,
              input = args (todo_call [sample_task ''2'' ''completed''])\<rparr>"
  let ?outs = "[?a, ?m1, ?b, ?m2, ?t1, ?t2]"
  let ?U = "\<lparr>new_chat_history =
               Some (chat_history ?S @ [observation sample_ns ?a, observation sample_ns ?b]),
             new_agentOutcome = None,
             new_latest_screenshot = Some (Some (JStr (lit ''BBBB''))),
             new_current_ui_status =
               Some (Some \<lparr>message = lit ''two'', status = lit ''Working'', emoji = lit ''*''\<rparr>),
             new_current_todo_list = Some (Some (JArr [sample_task ''2'' ''completed'']))\<rparr>"
  have d: "dispatch sample_tools (actions ?S) [] = Inr ?outs" by code_simp
  have x: "executeTools sample_ns sample_tools ?S = Inr ?U" by code_simp
  from last_outcome_wins
    [where tools = sample_tools and state = ?S and ns = sample_ns and upd = ?U
       and outs = ?outs] d x
  have "new_latest_screenshot ?U =
         (if screenshots ?outs = [] then None
          else Some (get_prop (result (last (screenshots ?outs))) (lit ''screenshot'')))"
    by blast
  moreover have "screenshots ?outs = [?a, ?b]" by code_simp
  ultimately have "new_latest_screenshot ?U = Some (Some (JStr (lit ''BBBB'')))"
    by (simp add: get_prop_def)
  moreover have "new_current_ui_status ?U
      = Some (Some \<lparr>message = lit ''two'', status = lit ''Working'', emoji = lit ''*''\<rparr>)"
    and "new_current_todo_list ?U = Some (Some (JArr [sample_task ''2'' ''completed'']))"
    and "map_option length (new_chat_history ?U) = Some 3"
    by (simp_all add: sample_state_def)
  ultimately show ?thesis using x by blast
qed

end
